theory Spec2Isabelle
  imports Main "HOL-Library.Word"
begin

unbundle bit_operations_syntax

section \<open>Data model of package argon2id\<close>

text \<open>
  Go's \<open>[]byte\<close> is a list of 8-bit words, Go's \<open>string\<close> is a list of bytes too and is
  written here as \<open>string\<close> (a \<open>char list\<close>, one \<open>char\<close> per byte).  The unsigned
  machine integers of the configuration are words of their width.
\<close>

type_synonym byte = "8 word"
type_synonym bytes = "8 word list"
type_synonym uint8 = "8 word"
type_synonym uint32 = "32 word"

text \<open>
  The constants of \<open>argon2id.go\<close>.  The three format strings \<open>template\<close>,
  \<open>versionTemplate\<close> (\<open>v=%d\<close>) and \<open>paramsTemplate\<close> (\<open>m=%d,t=%d,p=%d\<close>) are not constants
  of the model: each is built into the function that interprets it (\<open>Sprintf_template\<close>,
  \<open>Sscanf_version\<close>, \<open>Sscanf_params\<close>).
\<close>

definition splitChar :: char where "splitChar = CHR ''$''"
definition algorithmIdx :: nat where "algorithmIdx = 1"
definition versionIdx :: nat where "versionIdx = 2"
definition paramsIdx :: nat where "paramsIdx = 3"
definition saltIdx :: nat where "saltIdx = 4"
definition keyIdx :: nat where "keyIdx = 5"
definition numParts :: nat where "numParts = 6"
definition matching :: int where "matching = 1"

definition algorithm :: string where "algorithm = ''argon2id''"
definition defaultTimeCost :: uint32 where "defaultTimeCost = 2"
definition defaultMemoryCost :: uint32 where "defaultMemoryCost = 65536"
definition defaultSaltLength :: uint32 where "defaultSaltLength = 16"
definition defaultKeyLength :: uint32 where "defaultKeyLength = 32"

text \<open>
  \<open>init()\<close> stores \<open>uint8(runtime.NumCPU())\<close> in the package variable
  \<open>defaultParallelismCost\<close>.  The number of CPUs is an input of the model; Go's
  conversion of an \<open>int\<close> to \<open>uint8\<close> keeps the low eight bits.
\<close>

definition defaultParallelismCost :: "int \<Rightarrow> uint8" where
  "defaultParallelismCost numCPU = word_of_int numCPU"

text \<open>
  Errors are values.  \<open>Errorf prefix e\<close> is \<open>fmt.Errorf(prefix + "%w", e)\<close>: a new error
  that wraps \<open>e\<close>.  The three sentinel errors are the package's own; \<open>RandReadError\<close>,
  \<open>ScanError\<close> and \<open>CorruptInputError\<close> stand for the errors of \<open>crypto/rand\<close>, of
  \<open>fmt.Sscanf\<close> and of \<open>encoding/base64\<close>, whose message text (and input offset) is not
  modelled.
\<close>

datatype error =
    ErrMalformedHash
  | ErrBytesNotRead
  | ErrPasswordsDoNotMatch
  | RandReadError
  | ScanError
  | CorruptInputError
  | Errorf string error

text \<open>\<open>errors.Is\<close>: the error itself or an error somewhere along its chain of wrapped errors.\<close>

fun errors_Is :: "error \<Rightarrow> error \<Rightarrow> bool" where
  "errors_Is (Errorf msg e) target = (Errorf msg e = target \<or> errors_Is e target)"
| "errors_Is e target = (e = target)"

text \<open>A call either returns a value or panics; a panic carries its message.\<close>

datatype 'a outcome = Returned 'a | Panicked string

record Argon2Id =
  timeCost :: uint32
  memoryCost :: uint32
  parallelismCost :: uint8
  saltLength :: uint32
  keyLength :: uint32

section \<open>Construction: \<open>New\<close> and the options\<close>

type_synonym Argon2IdOption = "Argon2Id \<Rightarrow> Argon2Id"

definition WithTimeCost :: "uint32 \<Rightarrow> Argon2IdOption" where
  "WithTimeCost v = (\<lambda>a. a\<lparr>timeCost := v\<rparr>)"

definition WithMemoryCost :: "uint32 \<Rightarrow> Argon2IdOption" where
  "WithMemoryCost v = (\<lambda>a. a\<lparr>memoryCost := v\<rparr>)"

definition WithParallelismCost :: "uint8 \<Rightarrow> Argon2IdOption" where
  "WithParallelismCost v = (\<lambda>a. a\<lparr>parallelismCost := v\<rparr>)"

definition WithSaltLength :: "uint32 \<Rightarrow> Argon2IdOption" where
  "WithSaltLength v = (\<lambda>a. a\<lparr>saltLength := v\<rparr>)"

definition WithKeyLength :: "uint32 \<Rightarrow> Argon2IdOption" where
  "WithKeyLength v = (\<lambda>a. a\<lparr>keyLength := v\<rparr>)"

text \<open>The loop \<open>for _, option := range options { option(a) }\<close>.\<close>

fun applyOptions :: "Argon2Id \<Rightarrow> Argon2IdOption list \<Rightarrow> Argon2Id" where
  "applyOptions a [] = a"
| "applyOptions a (option # rest) = applyOptions (option a) rest"

definition New :: "int \<Rightarrow> Argon2IdOption list \<Rightarrow> Argon2Id" where
  "New numCPU opts =
     (let a = \<lparr>timeCost = defaultTimeCost,
               memoryCost = defaultMemoryCost,
               parallelismCost = defaultParallelismCost numCPU,
               saltLength = defaultSaltLength,
               keyLength = defaultKeyLength\<rparr>
      in if length opts = 0 then a else applyOptions a opts)"

section \<open>The library functions the package calls\<close>

text \<open>
  \<open>Generate\<close> and \<open>Compare\<close> are glue around functions of Go's standard library and of
  \<open>golang.org/x/crypto/argon2\<close>.  Each is modelled here by what it computes on the
  arguments this package passes; the key derivation itself and the random source are
  parameters.
\<close>

subsection \<open>\<open>strings.Split\<close> with a one-byte separator\<close>

text \<open>
  \<open>strings.Split(s, sep)\<close> cuts \<open>s\<close> at every occurrence of \<open>sep\<close>; the result has one
  more element than \<open>s\<close> has separators, so the empty string gives one empty element.
\<close>

fun strings_Split :: "string \<Rightarrow> char \<Rightarrow> string list" where
  "strings_Split [] sep = [[]]"
| "strings_Split (c # s) sep =
     (if c = sep then [] # strings_Split s sep
      else (case strings_Split s sep of
              [] \<Rightarrow> [[c]]
            | part # parts \<Rightarrow> (c # part) # parts))"

subsection \<open>Decimal numbers: the verb \<open>%d\<close>\<close>

definition digitChar :: "nat \<Rightarrow> char" where
  "digitChar d = ''0123456789'' ! d"

definition isDigit :: "char \<Rightarrow> bool" where
  "isDigit c = (c \<in> set ''0123456789'')"

definition digitVal :: "char \<Rightarrow> nat" where
  "digitVal c = of_char c - 48"

function formatUint :: "nat \<Rightarrow> string" where
  "formatUint n = (if n < 10 then [digitChar n] else formatUint (n div 10) @ [digitChar (n mod 10)])"
  by pat_completeness auto
termination
  by (relation "measure id") auto

declare formatUint.simps [simp del]

text \<open>\<open>%d\<close> of a signed integer.\<close>

definition formatInt :: "int \<Rightarrow> string" where
  "formatInt i = (if i < 0 then CHR ''-'' # formatUint (nat (- i)) else formatUint (nat i))"

subsection \<open>\<open>fmt.Sscanf\<close> for the two templates\<close>

text \<open>
  \<open>fmt.Sscanf(str, format, ...)\<close> walks the format.  A literal byte of the format must be
  the next byte of the input (end of input and a different byte are errors).  At \<open>%d\<close> it
  skips leading space, where a newline is an error, then reads an optional sign (signed
  operands only) and the longest run of decimal digits, at least one, and converts it with
  \<open>strconv.ParseInt\<close> or \<open>strconv.ParseUint\<close> to 64 bits and then to the operand's width;
  a number that does not fit is an error.  Input left after the last verb is ignored.

  Space is Unicode space.  The input is read rune by rune; the one-byte spaces are tab,
  vertical tab, form feed, carriage return and blank, and the others are U+0085, U+00A0,
  U+1680, U+2000 to U+200A, U+2028, U+2029, U+202F, U+205F and U+3000, recognised here
  by their UTF-8 encodings.  Any other byte sequence is a rune that is neither space,
  sign nor digit.  (The scanner also stops reading after \<open>2 ^ 30\<close> runes; inputs of
  that size are outside this model.)
\<close>

definition spaceWidth :: "string \<Rightarrow> nat" where
  "spaceWidth s =
     (case map of_char (take 3 s) :: nat list of
        [] \<Rightarrow> 0
      | b0 # rest \<Rightarrow>
          if (9 \<le> b0 \<and> b0 \<le> 13) \<or> b0 = 32 then 1
          else if b0 = 194 then
            (case rest of
               b1 # _ \<Rightarrow> if b1 = 133 \<or> b1 = 160 then 2 else 0
             | [] \<Rightarrow> 0)
          else
            (case rest of
               [b1, b2] \<Rightarrow>
                 if b0 = 225 \<and> b1 = 154 \<and> b2 = 128 then 3
                 else if b0 = 226 \<and> b1 = 128 \<and>
                         ((128 \<le> b2 \<and> b2 \<le> 138) \<or> b2 = 168 \<or> b2 = 169 \<or> b2 = 175) then 3
                 else if b0 = 226 \<and> b1 = 129 \<and> b2 = 159 then 3
                 else if b0 = 227 \<and> b1 = 128 \<and> b2 = 128 then 3
                 else 0
             | _ \<Rightarrow> 0))"

function SkipSpace :: "string \<Rightarrow> error + string" where
  "SkipSpace s =
     (if s = [] then Inr s
      else if hd s = CHR 0x0A then Inl ScanError
      else if spaceWidth s = 0 then Inr s
      else SkipSpace (drop (spaceWidth s) s))"
  by pat_completeness auto
termination
  by (relation "measure length") (auto simp: neq_Nil_conv)

declare SkipSpace.simps [simp del]

text \<open>The literal bytes of a format, matched against the input.\<close>

fun literal :: "string \<Rightarrow> string \<Rightarrow> error + string" where
  "literal [] s = Inr s"
| "literal (f # fmt) [] = Inl ScanError"
| "literal (f # fmt) (c # s) = (if f = c then literal fmt s else Inl ScanError)"

text \<open>\<open>scanNumber\<close>: the digits of the token and the input after them.\<close>

definition scanNumber :: "string \<Rightarrow> error + (string \<times> string)" where
  "scanNumber s =
     (if takeWhile isDigit s = [] then Inl ScanError
      else Inr (takeWhile isDigit s, dropWhile isDigit s))"

text \<open>\<open>strconv.ParseUint(tok, 10, 64)\<close> on a token of digits.\<close>

definition digitsVal :: "string \<Rightarrow> nat" where
  "digitsVal tok = foldl (\<lambda>acc c. 10 * acc + digitVal c) 0 tok"

definition ParseUint :: "string \<Rightarrow> error + nat" where
  "ParseUint tok = (if digitsVal tok < 2 ^ 64 then Inr (digitsVal tok) else Inl ScanError)"

text \<open>\<open>scanUint(verb, bitSize)\<close> for \<open>%d\<close>.\<close>

definition scanUint :: "nat \<Rightarrow> string \<Rightarrow> error + (nat \<times> string)" where
  "scanUint bitSize s =
     (case SkipSpace s of
        Inl e \<Rightarrow> Inl e
      | Inr s1 \<Rightarrow>
          (case scanNumber s1 of
             Inl e \<Rightarrow> Inl e
           | Inr (tok, s2) \<Rightarrow>
               (case ParseUint tok of
                  Inl e \<Rightarrow> Inl e
                | Inr i \<Rightarrow> if i < 2 ^ bitSize then Inr (i, s2) else Inl ScanError)))"

text \<open>
  \<open>scanInt(verb, 64)\<close> for \<open>%d\<close> into an \<open>int\<close>: the sign, if any, belongs to the
  token, and \<open>strconv.ParseInt(tok, 10, 64)\<close> accepts \<open>- 2 ^ 63\<close> to \<open>2 ^ 63 - 1\<close>.
\<close>

definition scanInt :: "string \<Rightarrow> error + (int \<times> string)" where
  "scanInt s =
     (case SkipSpace s of
        Inl e \<Rightarrow> Inl e
      | Inr s1 \<Rightarrow>
          (let neg = (s1 \<noteq> [] \<and> hd s1 = CHR ''-'');
               s2 = (if s1 \<noteq> [] \<and> (hd s1 = CHR ''+'' \<or> hd s1 = CHR ''-'') then tl s1 else s1)
           in case scanNumber s2 of
                Inl e \<Rightarrow> Inl e
              | Inr (tok, s3) \<Rightarrow>
                  (case ParseUint tok of
                     Inl e \<Rightarrow> Inl e
                   | Inr un \<Rightarrow>
                       if \<not> neg \<and> un \<ge> 2 ^ 63 then Inl ScanError
                       else if neg \<and> un > 2 ^ 63 then Inl ScanError
                       else Inr (if neg then - int un else int un, s3))))"

text \<open>\<open>fmt.Sscanf(s, versionTemplate, &version)\<close> with \<open>var version int\<close>.\<close>

definition Sscanf_version :: "string \<Rightarrow> error + int" where
  "Sscanf_version s =
     (case literal ''v='' s of
        Inl e \<Rightarrow> Inl e
      | Inr s1 \<Rightarrow> (case scanInt s1 of Inl e \<Rightarrow> Inl e | Inr (version, _) \<Rightarrow> Inr version))"

text \<open>
  \<open>fmt.Sscanf(s, paramsTemplate, &memoryCost, &timeCost, &parallelismCost)\<close> with two
  \<open>uint32\<close> and one \<open>uint8\<close> operand.
\<close>

definition Sscanf_params :: "string \<Rightarrow> error + (uint32 \<times> uint32 \<times> uint8)" where
  "Sscanf_params s =
     (case literal ''m='' s of
        Inl e \<Rightarrow> Inl e
      | Inr s1 \<Rightarrow>
     (case scanUint 32 s1 of
        Inl e \<Rightarrow> Inl e
      | Inr (m, s2) \<Rightarrow>
     (case literal '',t='' s2 of
        Inl e \<Rightarrow> Inl e
      | Inr s3 \<Rightarrow>
     (case scanUint 32 s3 of
        Inl e \<Rightarrow> Inl e
      | Inr (t, s4) \<Rightarrow>
     (case literal '',p='' s4 of
        Inl e \<Rightarrow> Inl e
      | Inr s5 \<Rightarrow>
     (case scanUint 8 s5 of
        Inl e \<Rightarrow> Inl e
      | Inr (p, _) \<Rightarrow> Inr (of_nat m, of_nat t, of_nat p)))))))"

subsection \<open>\<open>encoding/base64\<close>: \<open>RawStdEncoding\<close>\<close>

text \<open>The standard alphabet; \<open>RawStdEncoding\<close> writes and accepts no padding.\<close>

definition encodeStd :: string where
  "encodeStd = ''ABCDEFGHIJKLMNOPQRSTUVWXYZabcdefghijklmnopqrstuvwxyz0123456789+/''"

text \<open>
  \<open>EncodeToString\<close>: three bytes make the 24-bit \<open>val\<close> and four characters, indexed by
  \<open>val >> 18 & 0x3F\<close>, \<open>val >> 12 & 0x3F\<close>, \<open>val >> 6 & 0x3F\<close> and \<open>val & 0x3F\<close>; a last
  block of two bytes gives three characters and of one byte two.  The shifts and masks
  are written as division and remainder by powers of two.
\<close>

fun EncodeToString :: "bytes \<Rightarrow> string" where
  "EncodeToString (a # b # c # src) =
     (let val = unat a * 65536 + unat b * 256 + unat c
      in encodeStd ! (val div 262144 mod 64) # encodeStd ! (val div 4096 mod 64) #
         encodeStd ! (val div 64 mod 64) # encodeStd ! (val mod 64) # EncodeToString src)"
| "EncodeToString [a, b] =
     (let val = unat a * 65536 + unat b * 256
      in [encodeStd ! (val div 262144 mod 64), encodeStd ! (val div 4096 mod 64),
          encodeStd ! (val div 64 mod 64)])"
| "EncodeToString [a] =
     (let val = unat a * 65536
      in [encodeStd ! (val div 262144 mod 64), encodeStd ! (val div 4096 mod 64)])"
| "EncodeToString [] = []"

text \<open>\<open>decodeMap\<close>: the index of a character in the alphabet (\<open>0xff\<close>, here \<open>None\<close>, if it has none).\<close>

fun indexByte :: "string \<Rightarrow> char \<Rightarrow> nat option" where
  "indexByte [] c = None"
| "indexByte (x # xs) c = (if x = c then Some 0 else map_option Suc (indexByte xs c))"

definition decodeMap :: "char \<Rightarrow> nat option" where
  "decodeMap c = indexByte encodeStd c"

text \<open>
  The end of \<open>decodeQuantum\<close>: \<open>dbuf\<close> holds the values of the characters read for this
  quantum (missing ones are 0).  No character ends the input cleanly, one is corrupt;
  the three bytes are \<open>byte(val >> 16)\<close>, \<open>byte(val >> 8)\<close> and \<open>byte(val)\<close>, and of a
  short quantum only the first \<open>dlen - 1\<close> are output.  \<open>Strict()\<close> rejects a short
  quantum whose unused bytes are not zero.
\<close>

fun decodeQuantum :: "nat list \<Rightarrow> error + bytes" where
  "decodeQuantum [] = Inr []"
| "decodeQuantum [d0] = Inl CorruptInputError"
| "decodeQuantum [d0, d1] =
     (let val = d0 * 262144 + d1 * 4096
      in if val div 256 mod 256 \<noteq> 0 \<or> val mod 256 \<noteq> 0 then Inl CorruptInputError
         else Inr [of_nat (val div 65536)])"
| "decodeQuantum [d0, d1, d2] =
     (let val = d0 * 262144 + d1 * 4096 + d2 * 64
      in if val mod 256 \<noteq> 0 then Inl CorruptInputError
         else Inr [of_nat (val div 65536), of_nat (val div 256)])"
| "decodeQuantum (d0 # d1 # d2 # d3 # _) =
     (let val = d0 * 262144 + d1 * 4096 + d2 * 64 + d3
      in Inr [of_nat (val div 65536), of_nat (val div 256), of_nat val])"

text \<open>
  The loop of \<open>Decode\<close> over the quanta, with the reading loop of \<open>decodeQuantum\<close>: a
  character of the alphabet is stored in \<open>dbuf\<close>, and the fourth completes the quantum;
  carriage return and line feed are skipped; any other character is corrupt input.
\<close>

fun decodeFrom :: "nat list \<Rightarrow> string \<Rightarrow> error + bytes" where
  "decodeFrom dbuf [] = decodeQuantum dbuf"
| "decodeFrom dbuf (c # src) =
     (case decodeMap c of
        Some out \<Rightarrow>
          if length dbuf = 3 then
            (case decodeQuantum (dbuf @ [out]) of
               Inl e \<Rightarrow> Inl e
             | Inr q \<Rightarrow> (case decodeFrom [] src of Inl e \<Rightarrow> Inl e | Inr rest \<Rightarrow> Inr (q @ rest)))
          else decodeFrom (dbuf @ [out]) src
      | None \<Rightarrow>
          if c = CHR 0x0A \<or> c = CHR 0x0D then decodeFrom dbuf src
          else Inl CorruptInputError)"

text \<open>\<open>base64.RawStdEncoding.Strict().DecodeString\<close>.\<close>

definition DecodeString :: "string \<Rightarrow> error + bytes" where
  "DecodeString s = decodeFrom [] s"

subsection \<open>\<open>crypto/subtle\<close>\<close>

text \<open>\<open>ConstantTimeByteEq(x, y) = int((uint32(x ^ y) - 1) >> 31)\<close>.\<close>

definition ConstantTimeByteEq :: "byte \<Rightarrow> byte \<Rightarrow> int" where
  "ConstantTimeByteEq x y = uint (drop_bit 31 ((ucast (x XOR y) :: 32 word) - 1))"

text \<open>
  The loop \<open>for i := 0; i < len(x); i++ { v |= x[i] ^ y[i] }\<close>, from the state \<open>(i, v)\<close>
  to the state at its exit.  It is only entered with \<open>len(x) = len(y)\<close>.
\<close>

function compareLoop :: "bytes \<Rightarrow> bytes \<Rightarrow> nat \<Rightarrow> byte \<Rightarrow> nat \<times> byte" where
  "compareLoop x y i v =
     (if i < length x then compareLoop x y (i + 1) (v OR (x ! i XOR y ! i)) else (i, v))"
  by pat_completeness auto
termination
  by (relation "measure (\<lambda>(x, y, i, v). length x - i)") auto

declare compareLoop.simps [simp del]

definition ConstantTimeCompare :: "bytes \<Rightarrow> bytes \<Rightarrow> int" where
  "ConstantTimeCompare x y =
     (if length x \<noteq> length y then 0
      else ConstantTimeByteEq (snd (compareLoop x y 0 0)) 0)"

subsection \<open>\<open>crypto/rand\<close>\<close>

text \<open>
  The random source is an input: the bytes it delivers to this call and whether it
  reports an error.  \<open>rand.Read(b)\<close> overwrites the first \<open>n\<close> bytes of \<open>b\<close> and returns
  \<open>n\<close>, at most \<open>len(b)\<close>, and the error.
\<close>

record randSource =
  delivered :: bytes
  failure :: bool

definition rand_Read :: "randSource \<Rightarrow> bytes \<Rightarrow> bytes \<times> int \<times> error option" where
  "rand_Read src b =
     (let n = min (length (delivered src)) (length b)
      in (take n (delivered src) @ drop n b, int n,
          if failure src then Some RandReadError else None))"

subsection \<open>\<open>golang.org/x/crypto/argon2\<close>\<close>

text \<open>
  \<open>argon2.Version\<close> is the constant \<open>0x13\<close>.  \<open>argon2.IDKey(password, salt, time, memory,
  threads, keyLen)\<close> starts with two checks, \<open>if time < 1 { panic("argon2: number of rounds
  too small") }\<close> and \<open>if threads < 1 { panic("argon2: parallelism degree too low") }\<close>, and
  derives the key otherwise.  The derivation is a parameter \<open>deriveKey\<close> of the model: a
  function of the six arguments, which returns a key or panics.
\<close>

definition argon2_Version :: int where
  "argon2_Version = 19"

type_synonym kdf = "bytes \<Rightarrow> bytes \<Rightarrow> uint32 \<Rightarrow> uint32 \<Rightarrow> uint8 \<Rightarrow> uint32 \<Rightarrow> bytes outcome"

definition IDKey :: "kdf \<Rightarrow> bytes \<Rightarrow> bytes \<Rightarrow> uint32 \<Rightarrow> uint32 \<Rightarrow> uint8 \<Rightarrow> uint32 \<Rightarrow> bytes outcome" where
  "IDKey deriveKey password salt time memory threads keyLen =
     (if time < 1 then Panicked ''argon2: number of rounds too small''
      else if threads < 1 then Panicked ''argon2: parallelism degree too low''
      else deriveKey password salt time memory threads keyLen)"

section \<open>\<open>Generate\<close> and \<open>Compare\<close>\<close>

text \<open>
  \<open>fmt.Sprintf(template, version, memoryCost, timeCost, parallelismCost, b64Salt, b64Key)\<close>
  with \<open>template = $argon2id$v=%d$m=%d,t=%d,p=%d$%s$%s\<close>: the literal text of the template
  with each \<open>%d\<close> replaced by the decimal number and each \<open>%s\<close> by the string.
\<close>

definition Sprintf_template :: "int \<Rightarrow> uint32 \<Rightarrow> uint32 \<Rightarrow> uint8 \<Rightarrow> string \<Rightarrow> string \<Rightarrow> string" where
  "Sprintf_template version m t p b64Salt b64Key =
     ''$argon2id$v='' @ formatInt version @
     ''$m='' @ formatUint (unat m) @ '',t='' @ formatUint (unat t) @ '',p='' @ formatUint (unat p) @
     ''$'' @ b64Salt @ ''$'' @ b64Key"

text \<open>
  \<open>Generate\<close> returns the pair \<open>(string, error)\<close>, or panics where \<open>argon2.IDKey\<close> does.
  The receiver \<open>a\<close>, the random source and the key derivation are arguments.
\<close>

definition Generate :: "Argon2Id \<Rightarrow> randSource \<Rightarrow> kdf \<Rightarrow> bytes \<Rightarrow> (string \<times> error option) outcome" where
  "Generate a src deriveKey password =
     (let (salt, n, err) = rand_Read src (replicate (unat (saltLength a)) 0)
      in case err of
           Some e \<Rightarrow> Returned ([], Some (Errorf ''argon2id: generate salt: '' e))
         | None \<Rightarrow>
             if n \<noteq> int (unat (saltLength a))
             then Returned ([], Some (Errorf ''argon2id: generate salt: '' ErrBytesNotRead))
             else
               (case IDKey deriveKey password salt (timeCost a) (memoryCost a)
                       (parallelismCost a) (keyLength a) of
                  Panicked msg \<Rightarrow> Panicked msg
                | Returned key \<Rightarrow>
                    (let b64Salt = EncodeToString salt;
                         b64Key = EncodeToString key
                     in Returned (Sprintf_template argon2_Version (memoryCost a) (timeCost a)
                                    (parallelismCost a) b64Salt b64Key, None))))"

text \<open>
  \<open>Compare\<close> returns an error (\<open>None\<close> is \<open>nil\<close>), or panics where \<open>argon2.IDKey\<close> does.
  \<open>uint32(len(key))\<close> keeps the low 32 bits of the length.  The local variables
  \<open>timeCost\<close>, \<open>memoryCost\<close> and \<open>parallelismCost\<close> carry a prime, the plain names
  being the fields of the receiver.
\<close>

definition Compare :: "Argon2Id \<Rightarrow> kdf \<Rightarrow> bytes \<Rightarrow> string \<Rightarrow> error option outcome" where
  "Compare a deriveKey password hash =
     (let parts = strings_Split hash splitChar
      in if length parts \<noteq> numParts
         then Returned (Some (Errorf ''argon2id: parts: '' ErrMalformedHash))
         else if parts ! algorithmIdx \<noteq> algorithm
         then Returned (Some (Errorf ''argon2id: algorithm: '' ErrMalformedHash))
         else
     (case Sscanf_version (parts ! versionIdx) of
        Inl err \<Rightarrow> Returned (Some (Errorf ''argon2id: scan version: '' err))
      | Inr version \<Rightarrow>
     (case Sscanf_params (parts ! paramsIdx) of
        Inl err \<Rightarrow> Returned (Some (Errorf ''argon2id: scan params: '' err))
      | Inr (memoryCost', timeCost', parallelismCost') \<Rightarrow>
     (case DecodeString (parts ! saltIdx) of
        Inl err \<Rightarrow> Returned (Some (Errorf ''argon2id: decode salt: '' err))
      | Inr salt \<Rightarrow>
     (case DecodeString (parts ! keyIdx) of
        Inl err \<Rightarrow> Returned (Some (Errorf ''argon2id: decode key: '' err))
      | Inr key \<Rightarrow>
     (case IDKey deriveKey password salt timeCost' memoryCost' parallelismCost'
             (of_nat (length key)) of
        Panicked msg \<Rightarrow> Panicked msg
      | Returned comparisonKey \<Rightarrow>
          if ConstantTimeCompare key comparisonKey = matching then Returned None
          else Returned (Some (Errorf ''argon2id: '' ErrPasswordsDoNotMatch))))))))"

section \<open>Notions used to state the properties\<close>

text \<open>
  The contract of the key derivation: a key it returns has the length that was asked for.
\<close>

definition returnsKeyLen :: "kdf \<Rightarrow> bool" where
  "returnsKeyLen deriveKey =
     (\<forall>password salt time memory threads keyLen key.
        deriveKey password salt time memory threads keyLen = Returned key \<longrightarrow>
        length key = unat keyLen)"

text \<open>
  A small key derivation that meets the contract, for concrete instances of the theorems:
  every byte of the key is the sum of the bytes of password and salt plus \<open>threads\<close>.
\<close>

definition sumKDF :: kdf where
  "sumKDF password salt time memory threads keyLen =
     Returned (replicate (unat keyLen) (sum_list (password @ salt) + threads))"

text \<open>\<open>strings.Join\<close> with a one-byte separator, the inverse of \<open>strings_Split\<close>.\<close>

fun strings_Join :: "string list \<Rightarrow> char \<Rightarrow> string" where
  "strings_Join [] sep = []"
| "strings_Join [p] sep = p"
| "strings_Join (p # q # ps) sep = p @ sep # strings_Join (q # ps) sep"

text \<open>
  A call of one of the five option constructors, as data, so that a theorem can speak
  of the last option given for a field; \<open>toOption\<close> is the option the call yields.
\<close>

datatype optionCall =
    CallWithTimeCost uint32
  | CallWithMemoryCost uint32
  | CallWithParallelismCost uint8
  | CallWithSaltLength uint32
  | CallWithKeyLength uint32

fun toOption :: "optionCall \<Rightarrow> Argon2IdOption" where
  "toOption (CallWithTimeCost v) = WithTimeCost v"
| "toOption (CallWithMemoryCost v) = WithMemoryCost v"
| "toOption (CallWithParallelismCost v) = WithParallelismCost v"
| "toOption (CallWithSaltLength v) = WithSaltLength v"
| "toOption (CallWithKeyLength v) = WithKeyLength v"

section \<open>Lemmas about the library functions\<close>

lemma strings_Split_not_Nil: "strings_Split s sep \<noteq> []"
  by (induction s) (auto split: list.splits)

lemma strings_Split_no_sep: "sep \<notin> set s \<Longrightarrow> strings_Split s sep = [s]"
  by (induction s) auto

lemma strings_Split_append:
  "sep \<notin> set p \<Longrightarrow> strings_Split (p @ sep # s) sep = p # strings_Split s sep"
  by (induction p) auto

lemma strings_Split_parts_no_sep: "p \<in> set (strings_Split s sep) \<Longrightarrow> sep \<notin> set p"
proof (induction s arbitrary: p)
  case Nil
  then show ?case by simp
next
  case (Cons c s)
  show ?case
  proof (cases "c = sep")
    case True
    with Cons show ?thesis by auto
  next
    case False
    obtain q qs where q: "strings_Split s sep = q # qs"
      using strings_Split_not_Nil [of s sep] by (cases "strings_Split s sep") auto
    with Cons False show ?thesis by auto
  qed
qed

lemma strings_Split_Join:
  "parts \<noteq> [] \<Longrightarrow> \<forall>p \<in> set parts. sep \<notin> set p \<Longrightarrow>
   strings_Split (strings_Join parts sep) sep = parts"
proof (induction parts sep rule: strings_Join.induct)
  case (1 sep)
  then show ?case by simp
next
  case (2 p sep)
  then show ?case by (simp add: strings_Split_no_sep)
next
  case (3 p q ps sep)
  then show ?case by (simp add: strings_Split_append)
qed

lemma strings_Join_Split: "strings_Join (strings_Split s sep) sep = s"
proof (induction s)
  case Nil
  then show ?case by simp
next
  case (Cons c s)
  obtain q qs where q: "strings_Split s sep = q # qs"
    using strings_Split_not_Nil [of s sep] by (cases "strings_Split s sep") auto
  show ?case
  proof (cases "c = sep")
    case True
    with Cons q show ?thesis by simp
  next
    case False
    with Cons q show ?thesis by (cases qs) auto
  qed
qed

lemma lt10_cases: "d < 10 \<Longrightarrow> d \<in> {0, 1, 2, 3, 4, 5, 6, 7, 8, 9::nat}"
  by auto

lemma digitChar_isDigit: "d < 10 \<Longrightarrow> isDigit (digitChar d)"
  using lt10_cases [of d] by (auto simp: isDigit_def digitChar_def)

lemma digitVal_digitChar: "d < 10 \<Longrightarrow> digitVal (digitChar d) = d"
  using lt10_cases [of d] by (auto simp: digitVal_def digitChar_def)

lemma formatUint_not_Nil: "formatUint n \<noteq> []"
  by (subst formatUint.simps) simp

lemma formatUint_digits: "c \<in> set (formatUint n) \<Longrightarrow> isDigit c"
proof (induction n arbitrary: c rule: formatUint.induct)
  case (1 n)
  then show ?case
    by (subst (asm) (2) formatUint.simps) (auto simp: digitChar_isDigit split: if_splits)
qed

lemma digitsVal_append: "digitsVal (xs @ [c]) = 10 * digitsVal xs + digitVal c"
  by (simp add: digitsVal_def)

lemma digitsVal_formatUint: "digitsVal (formatUint n) = n"
proof (induction n rule: formatUint.induct)
  case (1 n)
  show ?case
  proof (cases "n < 10")
    case True
    then show ?thesis
      by (subst formatUint.simps) (simp add: digitsVal_def digitVal_digitChar)
  next
    case False
    with 1 show ?thesis
      by (subst formatUint.simps) (simp add: digitsVal_append digitVal_digitChar)
  qed
qed

lemma isDigit_not_dollar: "isDigit c \<Longrightarrow> c \<noteq> CHR ''$''"
  by (auto simp: isDigit_def)

lemma takeWhile_digits:
  "\<forall>c \<in> set tok. isDigit c \<Longrightarrow> rest = [] \<or> \<not> isDigit (hd rest) \<Longrightarrow>
   takeWhile isDigit (tok @ rest) = tok \<and> dropWhile isDigit (tok @ rest) = rest"
  by (induction tok) (cases rest; auto)+

lemma isDigit_of_char: "isDigit c \<Longrightarrow> 48 \<le> (of_char c :: nat) \<and> (of_char c :: nat) \<le> 57"
  by (auto simp: isDigit_def)

lemma spaceWidth_ascii:
  "(of_char c :: nat) < 128 \<Longrightarrow> \<not> (9 \<le> (of_char c :: nat) \<and> (of_char c :: nat) \<le> 13) \<Longrightarrow>
   (of_char c :: nat) \<noteq> 32 \<Longrightarrow> spaceWidth (c # s) = 0"
  by (simp add: spaceWidth_def split: list.splits)

lemma isDigit_spaceWidth: "isDigit c \<Longrightarrow> spaceWidth (c # s) = 0"
  using isDigit_of_char [of c] by (intro spaceWidth_ascii) auto

lemma SkipSpace_digit: "isDigit c \<Longrightarrow> SkipSpace (c # s) = Inr (c # s)"
  by (subst SkipSpace.simps) (auto simp: isDigit_spaceWidth isDigit_def)

lemma scanUint_formatUint:
  assumes "n < 2 ^ bitSize" and "bitSize \<le> 64" and "rest = [] \<or> \<not> isDigit (hd rest)"
  shows "scanUint bitSize (formatUint n @ rest) = Inr (n, rest)"
proof -
  obtain c cs where f: "formatUint n = c # cs"
    using formatUint_not_Nil [of n] by (cases "formatUint n") auto
  have d: "\<forall>x \<in> set (formatUint n). isDigit x"
    using formatUint_digits by blast
  then have c: "isDigit c" using f by simp
  have skip: "SkipSpace (formatUint n @ rest) = Inr (formatUint n @ rest)"
    using SkipSpace_digit [OF c, of "cs @ rest"] f by simp
  have tk: "takeWhile isDigit (formatUint n @ rest) = formatUint n"
    and dr: "dropWhile isDigit (formatUint n @ rest) = rest"
    using takeWhile_digits [OF d assms(3)] by simp_all
  have "(2::nat) ^ bitSize \<le> 2 ^ 64" by (rule power_increasing) (use assms(2) in auto)
  then have n64: "n < 2 ^ 64" using assms(1) by linarith
  have p: "ParseUint (formatUint n) = Inr n"
    using n64 by (simp only: ParseUint_def digitsVal_formatUint if_True)
  have s: "scanNumber (formatUint n @ rest) = Inr (formatUint n, rest)"
    by (simp only: scanNumber_def tk dr formatUint_not_Nil if_False)
  show ?thesis
    using assms(1)
    by (simp only: scanUint_def skip s p sum.case prod.case if_True)
qed

lemma decodeMap_table: "map decodeMap encodeStd = map Some [0..<64]"
  by code_simp

lemma length_encodeStd: "length encodeStd = 64"
  by (simp add: encodeStd_def)

lemma decodeMap_encodeStd: "i < 64 \<Longrightarrow> decodeMap (encodeStd ! i) = Some i"
proof -
  assume i: "i < 64"
  have "decodeMap (encodeStd ! i) = map decodeMap encodeStd ! i"
    using i by (simp add: length_encodeStd)
  also have "\<dots> = map Some [0..<64] ! i"
    by (simp only: decodeMap_table)
  also have "\<dots> = Some i"
    using i by simp
  finally show ?thesis .
qed

lemma sextets_24:
  fixes v :: nat
  assumes "v < 16777216"
  shows "(v div 262144 mod 64) * 262144 + (v div 4096 mod 64) * 4096 + (v div 64 mod 64) * 64 + v mod 64 = v"
proof -
  define q1 r1 q2 r2 q3 r3 where
    "q1 = v div 64" and "r1 = v mod 64" and "q2 = q1 div 64" and "r2 = q1 mod 64" and
    "q3 = q2 div 64" and "r3 = q2 mod 64"
  have e1: "v = q1 * 64 + r1" by (simp add: q1_def r1_def)
  have e2: "q1 = q2 * 64 + r2" by (simp add: q2_def r2_def)
  have e3: "q2 = q3 * 64 + r3" by (simp add: q3_def r3_def)
  have d2: "v div 4096 = q2"
    using div_mult2_eq [of v 64 64] by (simp add: q2_def q1_def)
  have d3: "v div 262144 = q3"
    using div_mult2_eq [of v 4096 64] by (simp add: q3_def d2)
  have "q3 < 64" using assms d3 by (simp add: div_less_iff_less_mult flip: d3)
  then have m3: "q3 mod 64 = q3" by simp
  have "q3 * 262144 + r3 * 4096 + r2 * 64 + r1 = v"
    using e1 e2 e3 by linarith
  then show ?thesis
    by (simp only: d3 d2 m3 flip: q1_def r1_def r2_def r3_def)
qed

lemma unat_byte_lt: "unat (x :: 8 word) < 256"
  using unsigned_less [of x, where 'a = nat] by simp

lemma byte_mult_256: "(of_nat (n * 256 + m) :: 8 word) = of_nat m"
proof -
  have "(of_nat (n * 256 + m) :: 8 word) = of_nat n * 256 + of_nat m" by simp
  also have "(256 :: 8 word) = 0" by simp
  finally show ?thesis by simp
qed

lemma val_bytes:
  fixes a b c :: "8 word"
  defines "v \<equiv> unat a * 65536 + unat b * 256 + unat c"
  shows "v < 16777216"
    and "(of_nat (v div 65536) :: 8 word) = a"
    and "(of_nat (v div 256) :: 8 word) = b"
    and "(of_nat v :: 8 word) = c"
proof -
  have la: "unat a < 256" and lb: "unat b < 256" and lc: "unat c < 256"
    by (rule unat_byte_lt)+
  show "v < 16777216" using la lb lc by (simp add: v_def)
  have "v div 65536 = unat a" using lb lc by (simp add: v_def)
  then show "(of_nat (v div 65536) :: 8 word) = a" by simp
  have "v div 256 = unat a * 256 + unat b" using lc by (simp add: v_def)
  then show "(of_nat (v div 256) :: 8 word) = b" by (simp only: byte_mult_256) simp
  have "v = (unat a * 256 + unat b) * 256 + unat c" by (simp add: v_def)
  then show "(of_nat v :: 8 word) = c" by (simp only: byte_mult_256) simp
qed

lemma sextet_lt: "n mod 64 < (64::nat)"
  by simp

lemma decodeFrom_four:
  assumes "d0 < 64" "d1 < 64" "d2 < 64" "d3 < 64"
  shows "decodeFrom [] (encodeStd ! d0 # encodeStd ! d1 # encodeStd ! d2 # encodeStd ! d3 # s) =
         (case decodeQuantum [d0, d1, d2, d3] of
            Inl e \<Rightarrow> Inl e
          | Inr q \<Rightarrow> (case decodeFrom [] s of Inl e \<Rightarrow> Inl e | Inr rest \<Rightarrow> Inr (q @ rest)))"
  using assms by (simp add: decodeMap_encodeStd del: decodeQuantum.simps)

lemma decodeFrom_three:
  assumes "d0 < 64" "d1 < 64" "d2 < 64"
  shows "decodeFrom [] [encodeStd ! d0, encodeStd ! d1, encodeStd ! d2] = decodeQuantum [d0, d1, d2]"
  using assms by (simp add: decodeMap_encodeStd del: decodeQuantum.simps)

lemma decodeFrom_two:
  assumes "d0 < 64" "d1 < 64"
  shows "decodeFrom [] [encodeStd ! d0, encodeStd ! d1] = decodeQuantum [d0, d1]"
  using assms by (simp add: decodeMap_encodeStd del: decodeQuantum.simps)

lemma decodeQuantum_four:
  fixes a b c :: "8 word"
  defines "v \<equiv> unat a * 65536 + unat b * 256 + unat c"
  shows "decodeQuantum [v div 262144 mod 64, v div 4096 mod 64, v div 64 mod 64, v mod 64] = Inr [a, b, c]"
proof -
  have lt: "v < 16777216"
    unfolding v_def by (rule val_bytes(1))
  have by1: "(of_nat (v div 65536) :: 8 word) = a" and by2: "(of_nat (v div 256) :: 8 word) = b"
    and by3: "(of_nat v :: 8 word) = c"
    unfolding v_def by (rule val_bytes)+
  show ?thesis
    by (simp only: decodeQuantum.simps Let_def sextets_24 [OF lt] by1 by2 by3)
qed

lemma decodeQuantum_three:
  fixes a b :: "8 word"
  defines "v \<equiv> unat a * 65536 + unat b * 256"
  shows "decodeQuantum [v div 262144 mod 64, v div 4096 mod 64, v div 64 mod 64] = Inr [a, b]"
proof -
  have v0: "v = unat a * 65536 + unat b * 256 + unat (0 :: 8 word)" by (simp add: v_def)
  have lt: "v < 16777216"
    unfolding v0 by (rule val_bytes(1))
  have by1: "(of_nat (v div 65536) :: 8 word) = a" and by2: "(of_nat (v div 256) :: 8 word) = b"
    unfolding v0 by (rule val_bytes)+
  have m: "v mod 64 = 0" "v mod 256 = 0" by (simp_all add: v_def)
  have "(v div 262144 mod 64) * 262144 + (v div 4096 mod 64) * 4096 + (v div 64 mod 64) * 64 + v mod 64 = v"
    by (rule sextets_24 [OF lt])
  then have s: "(v div 262144 mod 64) * 262144 + (v div 4096 mod 64) * 4096 + (v div 64 mod 64) * 64 = v"
    by (simp only: m add_0_right)
  show ?thesis
    by (simp only: decodeQuantum.simps Let_def s m by1 by2) simp
qed

lemma decodeQuantum_two:
  fixes a :: "8 word"
  defines "v \<equiv> unat a * 65536"
  shows "decodeQuantum [v div 262144 mod 64, v div 4096 mod 64] = Inr [a]"
proof -
  have v0: "v = unat a * 65536 + unat (0 :: 8 word) * 256 + unat (0 :: 8 word)" by (simp add: v_def)
  have lt: "v < 16777216"
    unfolding v0 by (rule val_bytes(1))
  have by1: "(of_nat (v div 65536) :: 8 word) = a"
    unfolding v0 by (rule val_bytes)
  have m: "v mod 64 = 0" "v mod 256 = 0" "v div 64 mod 64 = 0" "v div 256 mod 256 = 0"
    by (simp_all add: v_def)
  have "(v div 262144 mod 64) * 262144 + (v div 4096 mod 64) * 4096 + (v div 64 mod 64) * 64 + v mod 64 = v"
    by (rule sextets_24 [OF lt])
  then have s: "(v div 262144 mod 64) * 262144 + (v div 4096 mod 64) * 4096 = v"
    by (simp only: m mult_0 add_0_right)
  show ?thesis
    by (simp only: decodeQuantum.simps Let_def s m by1) simp
qed

lemma decodeFrom_EncodeToString: "decodeFrom [] (EncodeToString bs) = Inr bs"
proof (induction bs rule: EncodeToString.induct)
  case (1 a b c src)
  show ?case
    by (simp only: EncodeToString.simps Let_def decodeFrom_four [OF sextet_lt sextet_lt sextet_lt sextet_lt]
        decodeQuantum_four 1 sum.case append.simps)
next
  case (2 a b)
  show ?case
    by (simp only: EncodeToString.simps Let_def decodeFrom_three [OF sextet_lt sextet_lt sextet_lt]
        decodeQuantum_three)
next
  case (3 a)
  show ?case
    by (simp only: EncodeToString.simps Let_def decodeFrom_two [OF sextet_lt sextet_lt]
        decodeQuantum_two)
next
  case 4
  show ?case by simp
qed

lemma DecodeString_EncodeToString: "DecodeString (EncodeToString bs) = Inr bs"
  by (simp add: DecodeString_def decodeFrom_EncodeToString)

lemma EncodeToString_alphabet: "c \<in> set (EncodeToString bs) \<Longrightarrow> c \<in> set encodeStd"
proof (induction bs rule: EncodeToString.induct)
  case (1 a b c' src)
  have "\<And>n. encodeStd ! (n mod 64) \<in> set encodeStd"
    by (simp add: length_encodeStd)
  with 1 show ?case by (auto simp: Let_def)
next
  case (2 a b)
  have "\<And>n. encodeStd ! (n mod 64) \<in> set encodeStd"
    by (simp add: length_encodeStd)
  with 2 show ?case by (auto simp: Let_def)
next
  case (3 a)
  have "\<And>n. encodeStd ! (n mod 64) \<in> set encodeStd"
    by (simp add: length_encodeStd)
  with 3 show ?case by (auto simp: Let_def)
next
  case 4
  then show ?case by simp
qed

lemma dollar_not_in_encodeStd: "CHR ''$'' \<notin> set encodeStd"
  by (simp add: encodeStd_def)

lemma EncodeToString_no_dollar: "CHR ''$'' \<notin> set (EncodeToString bs)"
  using EncodeToString_alphabet dollar_not_in_encodeStd by blast

lemma ByteEq_zero: "ConstantTimeByteEq 0 0 = 1"
  by (simp add: ConstantTimeByteEq_def)

lemma ByteEq_nonzero: "v \<noteq> 0 \<Longrightarrow> ConstantTimeByteEq v 0 = 0"
proof -
  assume v: "v \<noteq> 0"
  have uu: "unat (ucast v :: 32 word) = unat v"
    using unat_byte_lt [of v] by (simp add: unsigned_ucast_eq take_bit_nat_eq_self)
  have u: "(ucast v :: 32 word) \<noteq> 0"
    using v uu by (metis unat_0_iff)
  have "unat ((ucast v :: 32 word) - 1) = unat v - 1"
    using unat_minus_one [OF u] uu by simp
  then have "unat ((ucast v :: 32 word) - 1) < 2 ^ 31"
    using unat_byte_lt [of v] by simp
  then have "unat ((ucast v :: 32 word) - 1) div 2 ^ 31 = 0"
    by (rule div_less)
  then have "drop_bit 31 (unat ((ucast v :: 32 word) - 1)) = 0"
    by (simp only: drop_bit_eq_div)
  then have "unat (drop_bit 31 ((ucast v :: 32 word) - 1)) = 0"
    by (simp only: unat_drop_bit_eq)
  then have "drop_bit 31 ((ucast v :: 32 word) - 1) = 0"
    by (simp only: unat_0_iff)
  then show ?thesis by (simp add: ConstantTimeByteEq_def)
qed

lemma ByteEq_iff: "ConstantTimeByteEq v 0 = (if v = 0 then 1 else 0)"
  by (simp add: ByteEq_zero ByteEq_nonzero)

lemma or_eq_0_byte: "(v OR w) = (0 :: 8 word) \<longleftrightarrow> v = 0 \<and> w = 0"
  by (rule or_eq_0_iff)

lemma xor_eq_0_byte: "(a XOR b) = (0 :: 8 word) \<longleftrightarrow> a = b"
  by (metis xor.right_neutral xor_self_eq xor.commute xor.assoc)

lemma compareLoop_snd:
  "length x = length y \<Longrightarrow> i \<le> length x \<Longrightarrow>
   snd (compareLoop x y i v) = 0 \<longleftrightarrow> v = 0 \<and> drop i x = drop i y"
proof (induction x y i v rule: compareLoop.induct)
  case (1 x y i v)
  show ?case
  proof (cases "i < length x")
    case True
    have dx: "drop i x = x ! i # drop (Suc i) x"
      using True by (simp add: Cons_nth_drop_Suc)
    have dy: "drop i y = y ! i # drop (Suc i) y"
      using True 1(2) by (simp add: Cons_nth_drop_Suc)
    have "snd (compareLoop x y i v) = snd (compareLoop x y (i + 1) (v OR (x ! i XOR y ! i)))"
      using True by (subst compareLoop.simps) simp
    also have "\<dots> = 0 \<longleftrightarrow> (v OR (x ! i XOR y ! i)) = 0 \<and> drop (i + 1) x = drop (i + 1) y"
      using 1 True by simp
    finally show ?thesis
      by (simp add: dx dy or_eq_0_byte xor_eq_0_byte conj_ac)
  next
    case False
    with 1 show ?thesis
      by (subst compareLoop.simps) simp
  qed
qed

lemma ConstantTimeCompare_iff: "ConstantTimeCompare x y = (if x = y then 1 else 0)"
proof (cases "length x = length y")
  case True
  have "snd (compareLoop x y 0 0) = 0 \<longleftrightarrow> x = y"
    using compareLoop_snd [OF True, of 0 0] by simp
  then show ?thesis
    using True by (auto simp: ConstantTimeCompare_def ByteEq_iff)
next
  case False
  then show ?thesis by (auto simp: ConstantTimeCompare_def)
qed

lemma literal_append: "literal f (f @ s) = Inr s"
  by (induction f) auto

lemma isDigit_not_sign: "isDigit c \<Longrightarrow> c \<noteq> CHR ''+'' \<and> c \<noteq> CHR ''-''"
  by (auto simp: isDigit_def)

lemma scanInt_formatUint:
  assumes "n < 2 ^ 63" and "rest = [] \<or> \<not> isDigit (hd rest)"
  shows "scanInt (formatUint n @ rest) = Inr (int n, rest)"
proof -
  obtain c cs where f: "formatUint n = c # cs"
    using formatUint_not_Nil [of n] by (cases "formatUint n") auto
  have d: "\<forall>x \<in> set (formatUint n). isDigit x"
    using formatUint_digits by blast
  then have c: "isDigit c" using f by simp
  have skip: "SkipSpace (formatUint n @ rest) = Inr (formatUint n @ rest)"
    using SkipSpace_digit [OF c, of "cs @ rest"] f by simp
  have hd: "hd (formatUint n @ rest) = c" "formatUint n @ rest \<noteq> []"
    using f by simp_all
  have tk: "takeWhile isDigit (formatUint n @ rest) = formatUint n"
    and dr: "dropWhile isDigit (formatUint n @ rest) = rest"
    using takeWhile_digits [OF d assms(2)] by simp_all
  have n64: "n < 2 ^ 64" using assms(1) by simp
  have p: "ParseUint (formatUint n) = Inr n"
    using n64 by (simp only: ParseUint_def digitsVal_formatUint if_True)
  have s: "scanNumber (formatUint n @ rest) = Inr (formatUint n, rest)"
    by (simp only: scanNumber_def tk dr formatUint_not_Nil if_False)
  show ?thesis
    using assms(1) isDigit_not_sign [OF c]
    by (simp add: scanInt_def skip hd s p Let_def)
qed

lemma Sscanf_version_formatInt:
  assumes "0 \<le> i" and "i < 2 ^ 63"
  shows "Sscanf_version (''v='' @ formatInt i) = Inr i"
proof -
  have n: "nat i < 2 ^ 63" using assms by (simp add: nat_less_iff)
  have "scanInt (formatUint (nat i) @ []) = Inr (int (nat i), [])"
    by (rule scanInt_formatUint [OF n]) simp
  then have "scanInt (formatInt i) = Inr (i, [])"
    using assms(1) by (simp add: formatInt_def)
  then show ?thesis
    by (simp only: Sscanf_version_def literal_append sum.case prod.case)
qed

lemma unat32_lt: "unat (w :: 32 word) < 2 ^ 32"
  using unsigned_less [of w, where 'a = nat] by simp

lemma unat8_lt: "unat (w :: 8 word) < 2 ^ 8"
  using unsigned_less [of w, where 'a = nat] by simp

lemma not_isDigit_comma: "\<not> isDigit (CHR '','')"
  by (simp add: isDigit_def)

lemma Sscanf_params_formatted:
  "Sscanf_params (''m='' @ formatUint (unat m) @ '',t='' @ formatUint (unat t) @
                  '',p='' @ formatUint (unat p)) = Inr (m, t, p)"
proof -
  let ?s5 = "formatUint (unat p)"
  let ?s4 = "'',p='' @ ?s5"
  let ?s3 = "formatUint (unat t) @ ?s4"
  let ?s2 = "'',t='' @ ?s3"
  let ?s1 = "formatUint (unat m) @ ?s2"
  have l1: "literal ''m='' (''m='' @ ?s1) = Inr ?s1" by (rule literal_append)
  have u1: "scanUint 32 ?s1 = Inr (unat m, ?s2)"
    by (rule scanUint_formatUint [OF unat32_lt]) (simp_all add: not_isDigit_comma)
  have l2: "literal '',t='' ?s2 = Inr ?s3" by (rule literal_append)
  have u2: "scanUint 32 ?s3 = Inr (unat t, ?s4)"
    by (rule scanUint_formatUint [OF unat32_lt]) (simp_all add: not_isDigit_comma)
  have l3: "literal '',p='' ?s4 = Inr ?s5" by (rule literal_append)
  have "scanUint 8 (?s5 @ []) = Inr (unat p, [])"
    by (rule scanUint_formatUint [OF unat8_lt]) simp_all
  then have u3: "scanUint 8 ?s5 = Inr (unat p, [])" by simp
  show ?thesis
    by (simp only: Sscanf_params_def l1 u1 l2 u2 l3 u3 sum.case prod.case) simp
qed

lemma formatUint_no_dollar: "CHR ''$'' \<notin> set (formatUint n)"
  using formatUint_digits isDigit_not_dollar by blast


section \<open>Lemmas about \<open>Generate\<close> and \<open>Compare\<close>\<close>

lemma Sprintf_template_Join:
  "Sprintf_template version m t p b64Salt b64Key =
   strings_Join [[], algorithm, ''v='' @ formatInt version,
     ''m='' @ formatUint (unat m) @ '',t='' @ formatUint (unat t) @ '',p='' @ formatUint (unat p),
     b64Salt, b64Key] splitChar"
  by (simp add: Sprintf_template_def algorithm_def splitChar_def)

lemma strings_Split_template:
  assumes "0 \<le> version" and "CHR ''$'' \<notin> set b64Salt" and "CHR ''$'' \<notin> set b64Key"
  shows "strings_Split (Sprintf_template version m t p b64Salt b64Key) splitChar =
         [[], algorithm, ''v='' @ formatInt version,
          ''m='' @ formatUint (unat m) @ '',t='' @ formatUint (unat t) @ '',p='' @ formatUint (unat p),
          b64Salt, b64Key]"
  unfolding Sprintf_template_Join
  by (rule strings_Split_Join)
     (use assms in \<open>auto simp: splitChar_def algorithm_def formatInt_def formatUint_no_dollar\<close>)

lemma rand_Read_full:
  "rand_Read src (replicate L 0) = (salt, n, err) \<Longrightarrow> n = int L \<Longrightarrow>
   salt = take L (delivered src) \<and> length salt = L \<and> L \<le> length (delivered src)"
  by (auto simp: rand_Read_def Let_def min_def split: if_splits)

lemma Generate_success:
  assumes "Generate a src deriveKey P = Returned (h, None)"
  shows "\<exists>key. unat (saltLength a) \<le> length (delivered src) \<and> \<not> failure src \<and>
           IDKey deriveKey P (take (unat (saltLength a)) (delivered src)) (timeCost a)
             (memoryCost a) (parallelismCost a) (keyLength a) = Returned key \<and>
           h = Sprintf_template argon2_Version (memoryCost a) (timeCost a) (parallelismCost a)
                 (EncodeToString (take (unat (saltLength a)) (delivered src))) (EncodeToString key)"
proof -
  obtain salt n err where r: "rand_Read src (replicate (unat (saltLength a)) 0) = (salt, n, err)"
    by (cases "rand_Read src (replicate (unat (saltLength a)) 0)") auto
  from assms r have err: "err = None" and n: "n = int (unat (saltLength a))"
    by (auto simp: Generate_def split: option.splits if_splits outcome.splits)
  from rand_Read_full [OF r n] have salt: "salt = take (unat (saltLength a)) (delivered src)"
    and le: "unat (saltLength a) \<le> length (delivered src)" by simp_all
  have nf: "\<not> failure src"
    using r err by (auto simp: rand_Read_def Let_def split: if_splits)
  from assms r err n salt show ?thesis
    using le nf by (auto simp: Generate_def Let_def split: outcome.splits)
qed

lemma IDKey_Returned:
  "IDKey deriveKey P salt t m p l = Returned key \<Longrightarrow>
   \<not> t < 1 \<and> \<not> p < 1 \<and> deriveKey P salt t m p l = Returned key"
  by (auto simp: IDKey_def split: if_splits)

lemma Compare_wellformed:
  assumes "strings_Split h splitChar = [p0, algorithm, pv, pp, ps, pk]"
    and "Sscanf_version pv = Inr v" and "Sscanf_params pp = Inr (m, t, p)"
    and "DecodeString ps = Inr salt" and "DecodeString pk = Inr key"
  shows "Compare a deriveKey P h =
         (case IDKey deriveKey P salt t m p (of_nat (length key)) of
            Panicked msg \<Rightarrow> Panicked msg
          | Returned comparisonKey \<Rightarrow>
              if ConstantTimeCompare key comparisonKey = matching then Returned None
              else Returned (Some (Errorf ''argon2id: '' ErrPasswordsDoNotMatch)))"
  using assms
  by (simp add: Compare_def Let_def numParts_def algorithmIdx_def versionIdx_def paramsIdx_def
      saltIdx_def keyIdx_def)

lemma argon2_Version_bounds: "0 \<le> argon2_Version \<and> argon2_Version < 2 ^ 63"
  by (simp add: argon2_Version_def)

lemma Compare_generated:
  assumes "returnsKeyLen deriveKey"
    and "IDKey deriveKey P salt t m p l = Returned key"
  shows "Compare a deriveKey Q
           (Sprintf_template argon2_Version m t p (EncodeToString salt) (EncodeToString key)) =
         (case IDKey deriveKey Q salt t m p l of
            Panicked msg \<Rightarrow> Panicked msg
          | Returned comparisonKey \<Rightarrow>
              if comparisonKey = key then Returned None
              else Returned (Some (Errorf ''argon2id: '' ErrPasswordsDoNotMatch)))"
proof -
  have len: "length key = unat l"
    using assms IDKey_Returned [OF assms(2)] by (auto simp: returnsKeyLen_def)
  then have l: "(of_nat (length key) :: uint32) = l" by simp
  have split: "strings_Split
      (Sprintf_template argon2_Version m t p (EncodeToString salt) (EncodeToString key)) splitChar =
      [[], algorithm, ''v='' @ formatInt argon2_Version,
       ''m='' @ formatUint (unat m) @ '',t='' @ formatUint (unat t) @ '',p='' @ formatUint (unat p),
       EncodeToString salt, EncodeToString key]"
    using argon2_Version_bounds by (intro strings_Split_template EncodeToString_no_dollar) simp
  have v: "Sscanf_version (''v='' @ formatInt argon2_Version) = Inr argon2_Version"
    using argon2_Version_bounds by (intro Sscanf_version_formatInt) simp_all
  show ?thesis
    by (simp only: Compare_wellformed [OF split v Sscanf_params_formatted
          DecodeString_EncodeToString DecodeString_EncodeToString] l)
       (auto simp: ConstantTimeCompare_iff matching_def split: outcome.splits)
qed

lemma returnsKeyLen_sumKDF: "returnsKeyLen sumKDF"
  by (auto simp: returnsKeyLen_def sumKDF_def)

lemma formatUint_simps_numeral:
  "formatUint 2 = ''2''" "formatUint 4 = ''4''" "formatUint 19 = ''19''"
  "formatUint 32768 = ''32768''"
  by (simp_all add: formatUint.simps digitChar_def)

lemma replicate_5: "replicate 5 x = [x, x, x, x, x]"
  by (simp add: numeral_eq_Suc)

lemma example_Generate:
  "Generate (New 4 [WithTimeCost 4, WithMemoryCost 32768, WithParallelismCost 2, WithSaltLength 4,
                    WithKeyLength 5])
     \<lparr>delivered = [1, 2, 3, 4], failure = False\<rparr> sumKDF [112, 119] =
   Returned (''$argon2id$v=19$m=32768,t=4,p=2$AQIDBA$8/Pz8/M'', None)"
  by (simp add: Generate_def New_def WithTimeCost_def WithMemoryCost_def WithParallelismCost_def
      WithSaltLength_def WithKeyLength_def rand_Read_def IDKey_def sumKDF_def Sprintf_template_def
      argon2_Version_def formatInt_def formatUint_simps_numeral encodeStd_def Let_def replicate_5)

lemma Compare_after_Generate:
  assumes "returnsKeyLen deriveKey"
    and "Generate a src deriveKey P = Returned (h, None)"
  shows "\<exists>key.
           IDKey deriveKey P (take (unat (saltLength a)) (delivered src)) (timeCost a)
             (memoryCost a) (parallelismCost a) (keyLength a) = Returned key \<and>
           Compare a' deriveKey Q h =
             (case IDKey deriveKey Q (take (unat (saltLength a)) (delivered src)) (timeCost a)
                     (memoryCost a) (parallelismCost a) (keyLength a) of
                Panicked msg \<Rightarrow> Panicked msg
              | Returned comparisonKey \<Rightarrow>
                  if comparisonKey = key then Returned None
                  else Returned (Some (Errorf ''argon2id: '' ErrPasswordsDoNotMatch)))"
proof -
  from Generate_success [OF assms(2)] obtain key where
    k: "IDKey deriveKey P (take (unat (saltLength a)) (delivered src)) (timeCost a)
          (memoryCost a) (parallelismCost a) (keyLength a) = Returned key"
    and h: "h = Sprintf_template argon2_Version (memoryCost a) (timeCost a) (parallelismCost a)
          (EncodeToString (take (unat (saltLength a)) (delivered src))) (EncodeToString key)"
    by blast
  show ?thesis
    unfolding h using k Compare_generated [OF assms(1) k] by blast
qed

lemma finite_keys_of_length: "finite {key :: bytes. length key = n}"
  using finite_lists_length_eq [of "UNIV :: byte set" n] by simp

lemma KDF_collision:
  assumes "returnsKeyLen deriveKey"
    and "\<forall>P. \<exists>h. Generate a src deriveKey P = Returned (h, None)"
  shows "\<exists>P Q h. P \<noteq> Q \<and> Generate a src deriveKey P = Returned (h, None) \<and>
           Compare a' deriveKey Q h = Returned None"
proof -
  let ?salt = "take (unat (saltLength a)) (delivered src)"
  let ?idkey = "\<lambda>P. IDKey deriveKey P ?salt (timeCost a) (memoryCost a) (parallelismCost a) (keyLength a)"
  define f where "f P = (case ?idkey P of Returned key \<Rightarrow> key | Panicked msg \<Rightarrow> [])" for P
  have ret: "?idkey P = Returned (f P)" for P
  proof -
    from assms(2) obtain h where "Generate a src deriveKey P = Returned (h, None)" by blast
    from Generate_success [OF this] show ?thesis by (auto simp: f_def)
  qed
  have len: "length (f P) = unat (keyLength a)" for P
    using assms(1) IDKey_Returned [OF ret [of P]] by (auto simp: returnsKeyLen_def)
  have "range f \<subseteq> {key. length key = unat (keyLength a)}"
    using len by auto
  then have "finite (range f)"
    using finite_keys_of_length finite_subset by blast
  then have "\<not> inj f"
    using finite_imageD [of f UNIV] infinite_UNIV_listI by blast
  then obtain P Q where pq: "P \<noteq> Q" "f P = f Q"
    by (auto simp: inj_on_def)
  from assms(2) obtain h where g: "Generate a src deriveKey P = Returned (h, None)" by blast
  from Compare_after_Generate [OF assms(1) g, of a' Q]
  have "Compare a' deriveKey Q h = Returned None"
    using ret [of P] ret [of Q] pq(2) by auto
  with pq(1) g show ?thesis by blast
qed

lemma literal_error: "literal f s = Inl e \<Longrightarrow> e = ScanError"
  by (induction f s rule: literal.induct) (auto split: if_splits)

lemma SkipSpace_error: "SkipSpace s = Inl e \<Longrightarrow> e = ScanError"
proof (induction s rule: SkipSpace.induct)
  case (1 s)
  from "1.prems" show ?case
    by (subst (asm) SkipSpace.simps) (auto split: if_splits dest: "1.IH")
qed

lemma scanNumber_error: "scanNumber s = Inl e \<Longrightarrow> e = ScanError"
  by (auto simp: scanNumber_def split: if_splits)

lemma ParseUint_error: "ParseUint tok = Inl e \<Longrightarrow> e = ScanError"
  by (auto simp: ParseUint_def split: if_splits)

lemma scanUint_error: "scanUint n s = Inl e \<Longrightarrow> e = ScanError"
  by (auto simp: scanUint_def split: sum.splits prod.splits if_splits
      dest: SkipSpace_error scanNumber_error ParseUint_error)

lemma scanInt_error: "scanInt s = Inl e \<Longrightarrow> e = ScanError"
  by (auto simp: scanInt_def Let_def split: sum.splits prod.splits if_splits
      dest: SkipSpace_error scanNumber_error ParseUint_error)

lemma Sscanf_version_error: "Sscanf_version s = Inl e \<Longrightarrow> e = ScanError"
  by (auto simp: Sscanf_version_def split: sum.splits prod.splits
      dest: literal_error scanInt_error)

lemma Sscanf_params_error: "Sscanf_params s = Inl e \<Longrightarrow> e = ScanError"
  by (auto simp: Sscanf_params_def split: sum.splits prod.splits
      dest: literal_error scanUint_error)

lemma decodeQuantum_error: "decodeQuantum dbuf = Inl e \<Longrightarrow> e = CorruptInputError"
  by (induction dbuf rule: decodeQuantum.induct) (auto simp: Let_def split: if_splits)

lemma decodeFrom_error: "decodeFrom dbuf s = Inl e \<Longrightarrow> e = CorruptInputError"
proof (induction dbuf s rule: decodeFrom.induct)
  case (1 dbuf)
  then show ?case by (simp add: decodeQuantum_error)
next
  case (2 dbuf c src)
  show ?case
  proof (cases "decodeMap c")
    case None
    show ?thesis
    proof (cases "c = CHR 0x0A \<or> c = CHR 0x0D")
      case True
      with None "2.prems" have "decodeFrom dbuf src = Inl e" by simp
      with "2.IH" None True show ?thesis by blast
    next
      case False
      with None "2.prems" show ?thesis by simp
    qed
  next
    case (Some out)
    show ?thesis
    proof (cases "length dbuf = 3")
      case True
      show ?thesis
      proof (cases "decodeQuantum (dbuf @ [out])")
        case (Inl e')
        with Some True "2.prems" show ?thesis by (auto dest: decodeQuantum_error)
      next
        case (Inr q)
        with Some True "2.prems" have "decodeFrom [] src = Inl e"
          by (auto split: sum.splits)
        with "2.IH" Some True Inr show ?thesis by blast
      qed
    next
      case False
      with Some "2.prems" have "decodeFrom (dbuf @ [out]) src = Inl e" by simp
      with "2.IH" Some False show ?thesis by blast
    qed
  qed
qed

lemma DecodeString_error: "DecodeString s = Inl e \<Longrightarrow> e = CorruptInputError"
  by (auto simp: DecodeString_def dest: decodeFrom_error)

lemma length_6: "length xs = 6 \<Longrightarrow> \<exists>a b c d e f. xs = [a, b, c, d, e, f]"
  by (auto simp: length_Suc_conv numeral_eq_Suc)

lemma Compare_six_parts:
  assumes "strings_Split h splitChar = [p0, p1, pv, pp, ps, pk]"
  shows "Compare a deriveKey P h =
     (if p1 \<noteq> algorithm
         then Returned (Some (Errorf ''argon2id: algorithm: '' ErrMalformedHash))
         else
     (case Sscanf_version pv of
        Inl err \<Rightarrow> Returned (Some (Errorf ''argon2id: scan version: '' err))
      | Inr version \<Rightarrow>
     (case Sscanf_params pp of
        Inl err \<Rightarrow> Returned (Some (Errorf ''argon2id: scan params: '' err))
      | Inr (memoryCost', timeCost', parallelismCost') \<Rightarrow>
     (case DecodeString ps of
        Inl err \<Rightarrow> Returned (Some (Errorf ''argon2id: decode salt: '' err))
      | Inr salt \<Rightarrow>
     (case DecodeString pk of
        Inl err \<Rightarrow> Returned (Some (Errorf ''argon2id: decode key: '' err))
      | Inr key \<Rightarrow>
     (case IDKey deriveKey P salt timeCost' memoryCost' parallelismCost'
             (of_nat (length key)) of
        Panicked msg \<Rightarrow> Panicked msg
      | Returned comparisonKey \<Rightarrow>
          if ConstantTimeCompare key comparisonKey = matching then Returned None
          else Returned (Some (Errorf ''argon2id: '' ErrPasswordsDoNotMatch))))))))"
  using assms
  by (simp add: Compare_def Let_def numParts_def algorithmIdx_def versionIdx_def paramsIdx_def
      saltIdx_def keyIdx_def cong: sum.case_cong)

lemma Compare_panics_in_IDKey:
  assumes "Compare a deriveKey P h = Panicked msg"
  shows "\<exists>p0 pv pp ps pk v m t p salt key.
           strings_Split h splitChar = [p0, algorithm, pv, pp, ps, pk] \<and>
           Sscanf_version pv = Inr v \<and> Sscanf_params pp = Inr (m, t, p) \<and>
           DecodeString ps = Inr salt \<and> DecodeString pk = Inr key \<and>
           IDKey deriveKey P salt t m p (of_nat (length key)) = Panicked msg"
proof -
  have l: "length (strings_Split h splitChar) = 6"
    using assms by (auto simp: Compare_def Let_def numParts_def split: if_splits)
  then obtain p0 p1 pv pp ps pk where parts: "strings_Split h splitChar = [p0, p1, pv, pp, ps, pk]"
    using length_6 by blast
  note c = assms [unfolded Compare_six_parts [OF parts]]
  from c have p1: "p1 = algorithm" by (auto split: if_splits)
  from c p1 obtain v where v: "Sscanf_version pv = Inr v"
    by (cases "Sscanf_version pv") auto
  from c p1 v obtain m t p where pp: "Sscanf_params pp = Inr (m, t, p)"
    by (cases "Sscanf_params pp") auto
  from c p1 v pp obtain salt where ps: "DecodeString ps = Inr salt"
    by (cases "DecodeString ps") auto
  from c p1 v pp ps obtain key where pk: "DecodeString pk = Inr key"
    by (cases "DecodeString pk") auto
  from c p1 v pp ps pk have "IDKey deriveKey P salt t m p (of_nat (length key)) = Panicked msg"
    by (cases "IDKey deriveKey P salt t m p (of_nat (length key))") (auto split: if_splits)
  with parts p1 v pp ps pk show ?thesis by blast
qed

lemma Compare_returned_values:
  assumes "Compare a deriveKey P h = Returned r"
  shows "r = None \<or>
         r \<in> Some ` {Errorf ''argon2id: parts: '' ErrMalformedHash,
                     Errorf ''argon2id: algorithm: '' ErrMalformedHash,
                     Errorf ''argon2id: scan version: '' ScanError,
                     Errorf ''argon2id: scan params: '' ScanError,
                     Errorf ''argon2id: decode salt: '' CorruptInputError,
                     Errorf ''argon2id: decode key: '' CorruptInputError,
                     Errorf ''argon2id: '' ErrPasswordsDoNotMatch}"
proof (cases "length (strings_Split h splitChar) = 6")
  case False
  with assms show ?thesis by (auto simp: Compare_def Let_def numParts_def)
next
  case True
  then obtain p0 p1 pv pp ps pk where parts: "strings_Split h splitChar = [p0, p1, pv, pp, ps, pk]"
    using length_6 by blast
  note c = assms [unfolded Compare_six_parts [OF parts]]
  show ?thesis
  proof (cases "p1 = algorithm")
    case False
    with c show ?thesis by simp
  next
    case p1: True
    show ?thesis
    proof (cases "Sscanf_version pv")
      case (Inl e)
      with c p1 Sscanf_version_error [OF Inl] show ?thesis by auto
    next
      case v: (Inr v)
      show ?thesis
      proof (cases "Sscanf_params pp")
        case (Inl e)
        with c p1 v Sscanf_params_error [OF Inl] show ?thesis by auto
      next
        case pp: (Inr mtp)
        show ?thesis
        proof (cases "DecodeString ps")
          case (Inl e)
          with c p1 v pp DecodeString_error [OF Inl] show ?thesis by (auto split: prod.splits)
        next
          case ps: (Inr salt)
          show ?thesis
          proof (cases "DecodeString pk")
            case (Inl e)
            with c p1 v pp ps DecodeString_error [OF Inl] show ?thesis by (auto split: prod.splits)
          next
            case pk: (Inr key)
            with c p1 v pp ps show ?thesis
              by (auto split: prod.splits outcome.splits if_splits)
          qed
        qed
      qed
    qed
  qed
qed

lemma IDKey_zero_panics:
  "t = 0 \<or> p = 0 \<Longrightarrow>
   IDKey deriveKey P salt t m p l =
     Panicked (if t = 0 then ''argon2: number of rounds too small''
               else ''argon2: parallelism degree too low'')"
  by (auto simp: IDKey_def word_less_1)

lemma formatUint_examples:
  "formatUint 0 = ''0''" "formatUint 1 = ''1''" "formatUint (Suc 0) = ''1''"
  "formatUint 65536 = ''65536''"
  by (simp_all add: formatUint.simps digitChar_def)

lemma Sscanf_version_19: "Sscanf_version ''v=19'' = Inr 19"
  using Sscanf_version_formatInt [of 19] by (simp add: formatInt_def formatUint_simps_numeral)

lemma Sscanf_version_0: "Sscanf_version ''v=0'' = Inr 0"
  using Sscanf_version_formatInt [of 0] by (simp add: formatInt_def formatUint_examples)

lemma Sscanf_params_t0: "Sscanf_params ''m=65536,t=0,p=1'' = Inr (65536, 0, 1)"
  using Sscanf_params_formatted [of 65536 0 1] by (simp add: formatUint_examples)

lemma Sscanf_params_t2: "Sscanf_params ''m=65536,t=2,p=1'' = Inr (65536, 2, 1)"
  using Sscanf_params_formatted [of 65536 2 1] by (simp add: formatUint_examples formatUint_simps_numeral)

lemma DecodeString_examples:
  "DecodeString ''c2FsdA'' = Inr [115, 97, 108, 116]"
  "DecodeString ''a2V5'' = Inr [107, 101, 121]"
  "DecodeString ''AAAA'' = Inr [0, 0, 0]"
  "DecodeString [] = Inr []"
  by (simp_all add: DecodeString_def decodeMap_def encodeStd_def Let_def)

lemma strings_Split_t0:
  "strings_Split ''$argon2id$v=19$m=65536,t=0,p=1$c2FsdA$a2V5'' splitChar =
   [[], algorithm, ''v=19'', ''m=65536,t=0,p=1'', ''c2FsdA'', ''a2V5'']"
  by (simp add: splitChar_def algorithm_def)

lemma replicate_A_step:
  "replicate (4 * Suc k + 2) c = c # c # c # c # replicate (4 * k + 2) c"
proof -
  have "4 * Suc k + 2 = Suc (Suc (Suc (Suc (4 * k + 2))))" by simp
  then show ?thesis by (simp only: replicate_Suc)
qed

lemma replicate_0_step:
  "replicate (3 * Suc k + 1) (0 :: byte) = [0, 0, 0] @ replicate (3 * k + 1) 0"
proof -
  have "3 * Suc k + 1 = Suc (Suc (Suc (3 * k + 1)))" by simp
  then show ?thesis by (simp only: replicate_Suc append.simps)
qed

lemma encodeStd_0: "encodeStd ! 0 = CHR ''A''"
  by (simp add: encodeStd_def)

lemma decodeFrom_As:
  "decodeFrom [] (replicate (4 * k + 2) (CHR ''A'')) = Inr (replicate (3 * k + 1) 0)"
proof (induction k)
  case 0
  have "decodeFrom [] [encodeStd ! 0, encodeStd ! 0] = decodeQuantum [0, 0]"
    by (rule decodeFrom_two) simp_all
  moreover have "replicate (4 * 0 + 2) (CHR ''A'') = [CHR ''A'', CHR ''A'']"
    by (simp add: numeral_2_eq_2)
  moreover have "decodeQuantum [0, 0] = Inr [0]"
    by simp
  ultimately show ?case
    by (simp only: encodeStd_0) simp
next
  case (Suc k)
  have "decodeFrom [] (encodeStd ! 0 # encodeStd ! 0 # encodeStd ! 0 # encodeStd ! 0 #
          replicate (4 * k + 2) (CHR ''A'')) =
        (case decodeQuantum [0, 0, 0, 0] of
           Inl e \<Rightarrow> Inl e
         | Inr q \<Rightarrow> (case decodeFrom [] (replicate (4 * k + 2) (CHR ''A'')) of
                      Inl e \<Rightarrow> Inl e | Inr rest \<Rightarrow> Inr (q @ rest)))"
    by (rule decodeFrom_four) simp_all
  then show ?case
    by (simp only: replicate_A_step replicate_0_step encodeStd_0 Suc) simp
qed

lemma DecodeString_big:
  "DecodeString (replicate 5726623070 (CHR ''A'')) = Inr (replicate 4294967302 0)"
proof -
  have a: "(5726623070 :: nat) = 4 * 1431655767 + 2" and b: "(4294967302 :: nat) = 3 * 1431655767 + 1"
    by simp_all
  show ?thesis
    unfolding DecodeString_def by (subst a, subst b) (rule decodeFrom_As)
qed

lemma strings_Split_big:
  "strings_Split (''$argon2id$v=19$m=65536,t=2,p=1$$'' @ replicate 5726623070 (CHR ''A'')) splitChar =
   [[], algorithm, ''v=19'', ''m=65536,t=2,p=1'', [], replicate 5726623070 (CHR ''A'')]"
proof -
  have e: "''$argon2id$v=19$m=65536,t=2,p=1$$'' @ replicate 5726623070 (CHR ''A'') =
        strings_Join [[], algorithm, ''v=19'', ''m=65536,t=2,p=1'', [],
          replicate 5726623070 (CHR ''A'')] splitChar"
    by (simp add: algorithm_def splitChar_def)
  show ?thesis
    by (subst e, rule strings_Split_Join) (simp_all add: algorithm_def splitChar_def)
qed

lemma Sscanf_params_example: "Sscanf_params ''m=32768,t=4,p=2'' = Inr (32768, 4, 2)"
  using Sscanf_params_formatted [of 32768 4 2] by (simp add: formatUint_simps_numeral)

lemma DecodeString_example_keys:
  "DecodeString ''AQIDBA'' = Inr [1, 2, 3, 4]"
  "DecodeString ''8/Pz8/M'' = Inr [243, 243, 243, 243, 243]"
  by (simp_all add: DecodeString_def decodeMap_def encodeStd_def Let_def)

lemma strings_Split_example:
  "strings_Split ''$argon2id$v=19$m=32768,t=4,p=2$AQIDBA$8/Pz8/M'' splitChar =
   [[], algorithm, ''v=19'', ''m=32768,t=4,p=2'', ''AQIDBA'', ''8/Pz8/M'']"
  by (simp add: splitChar_def algorithm_def)

lemma IDKey_sumKDF_example:
  "IDKey sumKDF [112, 119] [1, 2, 3, 4] 4 32768 2 (of_nat (length [243, 243, 243, 243, 243 :: byte])) =
   Returned [243, 243, 243, 243, 243]"
  by (simp add: IDKey_def sumKDF_def replicate_5)

lemma applyOptions_calls:
  "applyOptions a (map toOption calls) =
   \<lparr>timeCost = last (timeCost a # [v. CallWithTimeCost v \<leftarrow> calls]),
    memoryCost = last (memoryCost a # [v. CallWithMemoryCost v \<leftarrow> calls]),
    parallelismCost = last (parallelismCost a # [v. CallWithParallelismCost v \<leftarrow> calls]),
    saltLength = last (saltLength a # [v. CallWithSaltLength v \<leftarrow> calls]),
    keyLength = last (keyLength a # [v. CallWithKeyLength v \<leftarrow> calls])\<rparr>"
proof (induction calls arbitrary: a)
  case Nil
  then show ?case by simp
next
  case (Cons c calls)
  show ?case
    by (cases c)
       (simp_all add: Cons WithTimeCost_def WithMemoryCost_def WithParallelismCost_def
          WithSaltLength_def WithKeyLength_def)
qed

lemma New_options_in_order:
  "New numCPU (map toOption calls) =
   \<lparr>timeCost = last (2 # [v. CallWithTimeCost v \<leftarrow> calls]),
    memoryCost = last (65536 # [v. CallWithMemoryCost v \<leftarrow> calls]),
    parallelismCost = last (word_of_int numCPU # [v. CallWithParallelismCost v \<leftarrow> calls]),
    saltLength = last (16 # [v. CallWithSaltLength v \<leftarrow> calls]),
    keyLength = last (32 # [v. CallWithKeyLength v \<leftarrow> calls])\<rparr>"
proof (cases calls)
  case Nil
  then show ?thesis
    by (simp add: New_def defaultTimeCost_def defaultMemoryCost_def defaultParallelismCost_def
        defaultSaltLength_def defaultKeyLength_def)
next
  case (Cons c cs)
  then have "New numCPU (map toOption calls) =
      applyOptions \<lparr>timeCost = defaultTimeCost, memoryCost = defaultMemoryCost,
        parallelismCost = defaultParallelismCost numCPU, saltLength = defaultSaltLength,
        keyLength = defaultKeyLength\<rparr> (map toOption calls)"
    by (simp add: New_def)
  then show ?thesis
    by (simp only: applyOptions_calls)
       (simp add: defaultTimeCost_def defaultMemoryCost_def defaultParallelismCost_def
        defaultSaltLength_def defaultKeyLength_def)
qed

lemma defaultParallelismCost_mod:
  "uint (defaultParallelismCost numCPU) = numCPU mod 256"
  by (simp add: defaultParallelismCost_def uint_word_of_int)

lemma Compare_nil_iff:
  "Compare a deriveKey P h = Returned None \<longleftrightarrow>
   (\<exists>p0 pv pp ps pk v m t p salt key.
      strings_Split h splitChar = [p0, algorithm, pv, pp, ps, pk] \<and>
      Sscanf_version pv = Inr v \<and> Sscanf_params pp = Inr (m, t, p) \<and>
      DecodeString ps = Inr salt \<and> DecodeString pk = Inr key \<and>
      IDKey deriveKey P salt t m p (of_nat (length key)) = Returned key)"
proof
  assume r: "Compare a deriveKey P h = Returned None"
  have l: "length (strings_Split h splitChar) = 6"
    using r by (auto simp: Compare_def Let_def numParts_def split: if_splits)
  then obtain p0 p1 pv pp ps pk where parts: "strings_Split h splitChar = [p0, p1, pv, pp, ps, pk]"
    using length_6 by blast
  note c = r [unfolded Compare_six_parts [OF parts]]
  from c have p1: "p1 = algorithm" by (auto split: if_splits)
  from c p1 obtain v where v: "Sscanf_version pv = Inr v"
    by (cases "Sscanf_version pv") auto
  from c p1 v obtain m t p where pp: "Sscanf_params pp = Inr (m, t, p)"
    by (cases "Sscanf_params pp") auto
  from c p1 v pp obtain salt where ps: "DecodeString ps = Inr salt"
    by (cases "DecodeString ps") auto
  from c p1 v pp ps obtain key where pk: "DecodeString pk = Inr key"
    by (cases "DecodeString pk") auto
  from c p1 v pp ps pk have "IDKey deriveKey P salt t m p (of_nat (length key)) = Returned key"
    by (cases "IDKey deriveKey P salt t m p (of_nat (length key))")
       (auto simp: ConstantTimeCompare_iff matching_def split: if_splits)
  with parts p1 v pp ps pk show "\<exists>p0 pv pp ps pk v m t p salt key.
      strings_Split h splitChar = [p0, algorithm, pv, pp, ps, pk] \<and>
      Sscanf_version pv = Inr v \<and> Sscanf_params pp = Inr (m, t, p) \<and>
      DecodeString ps = Inr salt \<and> DecodeString pk = Inr key \<and>
      IDKey deriveKey P salt t m p (of_nat (length key)) = Returned key" by blast
next
  assume "\<exists>p0 pv pp ps pk v m t p salt key.
      strings_Split h splitChar = [p0, algorithm, pv, pp, ps, pk] \<and>
      Sscanf_version pv = Inr v \<and> Sscanf_params pp = Inr (m, t, p) \<and>
      DecodeString ps = Inr salt \<and> DecodeString pk = Inr key \<and>
      IDKey deriveKey P salt t m p (of_nat (length key)) = Returned key"
  then obtain p0 pv pp ps pk v m t p salt key where
    w: "strings_Split h splitChar = [p0, algorithm, pv, pp, ps, pk]"
      "Sscanf_version pv = Inr v" "Sscanf_params pp = Inr (m, t, p)"
      "DecodeString ps = Inr salt" "DecodeString pk = Inr key"
    and k: "IDKey deriveKey P salt t m p (of_nat (length key)) = Returned key"
    by blast
  show "Compare a deriveKey P h = Returned None"
    by (simp add: Compare_wellformed [OF w] k ConstantTimeCompare_iff matching_def)
qed

lemma Compare_panic_iff:
  "Compare a deriveKey P h = Panicked msg \<longleftrightarrow>
   (\<exists>p0 pv pp ps pk v m t p salt key.
      strings_Split h splitChar = [p0, algorithm, pv, pp, ps, pk] \<and>
      Sscanf_version pv = Inr v \<and> Sscanf_params pp = Inr (m, t, p) \<and>
      DecodeString ps = Inr salt \<and> DecodeString pk = Inr key \<and>
      IDKey deriveKey P salt t m p (of_nat (length key)) = Panicked msg)"
proof
  assume "Compare a deriveKey P h = Panicked msg"
  then show "\<exists>p0 pv pp ps pk v m t p salt key.
      strings_Split h splitChar = [p0, algorithm, pv, pp, ps, pk] \<and>
      Sscanf_version pv = Inr v \<and> Sscanf_params pp = Inr (m, t, p) \<and>
      DecodeString ps = Inr salt \<and> DecodeString pk = Inr key \<and>
      IDKey deriveKey P salt t m p (of_nat (length key)) = Panicked msg"
    by (rule Compare_panics_in_IDKey)
next
  assume "\<exists>p0 pv pp ps pk v m t p salt key.
      strings_Split h splitChar = [p0, algorithm, pv, pp, ps, pk] \<and>
      Sscanf_version pv = Inr v \<and> Sscanf_params pp = Inr (m, t, p) \<and>
      DecodeString ps = Inr salt \<and> DecodeString pk = Inr key \<and>
      IDKey deriveKey P salt t m p (of_nat (length key)) = Panicked msg"
  then obtain p0 pv pp ps pk v m t p salt key where
    w: "strings_Split h splitChar = [p0, algorithm, pv, pp, ps, pk]"
      "Sscanf_version pv = Inr v" "Sscanf_params pp = Inr (m, t, p)"
      "DecodeString ps = Inr salt" "DecodeString pk = Inr key"
    and k: "IDKey deriveKey P salt t m p (of_nat (length key)) = Panicked msg"
    by blast
  show "Compare a deriveKey P h = Panicked msg"
    by (simp add: Compare_wellformed [OF w] k)
qed

lemma Compare_step_errors:
  assumes "strings_Split h splitChar = [p0, p1, pv, pp, ps, pk]"
  shows "(p1 \<noteq> algorithm \<longrightarrow>
            Compare a deriveKey P h =
              Returned (Some (Errorf ''argon2id: algorithm: '' ErrMalformedHash))) \<and>
         (p1 = algorithm \<longrightarrow>
            (\<forall>err. Sscanf_version pv = Inl err \<longrightarrow>
               Compare a deriveKey P h =
                 Returned (Some (Errorf ''argon2id: scan version: '' err))) \<and>
            (\<forall>v. Sscanf_version pv = Inr v \<longrightarrow>
               (\<forall>err. Sscanf_params pp = Inl err \<longrightarrow>
                  Compare a deriveKey P h =
                    Returned (Some (Errorf ''argon2id: scan params: '' err))) \<and>
               (\<forall>m t p. Sscanf_params pp = Inr (m, t, p) \<longrightarrow>
                  (\<forall>err. DecodeString ps = Inl err \<longrightarrow>
                     Compare a deriveKey P h =
                       Returned (Some (Errorf ''argon2id: decode salt: '' err))) \<and>
                  (\<forall>salt. DecodeString ps = Inr salt \<longrightarrow>
                     (\<forall>err. DecodeString pk = Inl err \<longrightarrow>
                        Compare a deriveKey P h =
                          Returned (Some (Errorf ''argon2id: decode key: '' err))) \<and>
                     (\<forall>key. DecodeString pk = Inr key \<longrightarrow>
                        (\<forall>msg. IDKey deriveKey P salt t m p (of_nat (length key)) =
                                  Panicked msg \<longrightarrow>
                           Compare a deriveKey P h = Panicked msg) \<and>
                        (\<forall>comparisonKey.
                           IDKey deriveKey P salt t m p (of_nat (length key)) =
                             Returned comparisonKey \<longrightarrow>
                           Compare a deriveKey P h =
                             (if comparisonKey = key then Returned None
                              else Returned (Some (Errorf ''argon2id: ''
                                                     ErrPasswordsDoNotMatch)))) \<and>
                        (t = 0 \<or> p = 0 \<longrightarrow>
                           Compare a deriveKey P h =
                             Panicked (if t = 0 then ''argon2: number of rounds too small''
                                       else ''argon2: parallelism degree too low'')))))))"
proof -
  note c = Compare_six_parts [OF assms, of a deriveKey P]
  have z: "IDKey deriveKey P salt t m p l =
             Panicked (if t = 0 then ''argon2: number of rounds too small''
                       else ''argon2: parallelism degree too low'')"
    if "t = 0 \<or> p = 0" for salt t m p l
    using that by (rule IDKey_zero_panics)
  show ?thesis
    unfolding c
    by (auto simp: ConstantTimeCompare_iff matching_def z)
qed

lemma Sscanf_version_vers: "Sscanf_version ''vers'' = Inl ScanError"
  by (simp add: Sscanf_version_def)

lemma strings_Split_vers:
  "strings_Split ''$argon2id$vers$m=65536,t=2,p=1$c2FsdA$a2V5'' splitChar =
   [[], algorithm, ''vers'', ''m=65536,t=2,p=1'', ''c2FsdA'', ''a2V5'']"
  by (simp add: splitChar_def algorithm_def)

section \<open>The properties\<close>

text \<open>
  C1 (round trip).  Whenever \<open>Generate\<close> under a configuration \<open>a\<close> returns a string for a
  password, \<open>Compare\<close> of the same password against that string returns \<open>nil\<close>, whatever
  the configuration \<open>a'\<close> of the receiver used for the comparison.  The key derivation is
  any function that returns keys of the requested length.
\<close>

theorem Compare_Generate_roundtrip:
  assumes "returnsKeyLen deriveKey"
    and "Generate a src deriveKey P = Returned (h, None)"
  shows "Compare a' deriveKey P h = Returned None"
proof -
  from Generate_success [OF assms(2)] obtain key where
    k: "IDKey deriveKey P (take (unat (saltLength a)) (delivered src)) (timeCost a)
          (memoryCost a) (parallelismCost a) (keyLength a) = Returned key"
    and h: "h = Sprintf_template argon2_Version (memoryCost a) (timeCost a) (parallelismCost a)
          (EncodeToString (take (unat (saltLength a)) (delivered src))) (EncodeToString key)"
    by blast
  show ?thesis
    unfolding h by (simp add: Compare_generated [OF assms(1) k] k)
qed

theorem Compare_Generate_roundtrip_witness:
  "returnsKeyLen sumKDF \<and>
   Generate (New 4 [WithTimeCost 4, WithMemoryCost 32768, WithParallelismCost 2, WithSaltLength 4,
                    WithKeyLength 5])
     \<lparr>delivered = [1, 2, 3, 4], failure = False\<rparr> sumKDF [112, 119] =
   Returned (''$argon2id$v=19$m=32768,t=4,p=2$AQIDBA$8/Pz8/M'', None) \<and>
   Compare (New 4 []) sumKDF [112, 119] ''$argon2id$v=19$m=32768,t=4,p=2$AQIDBA$8/Pz8/M'' =
   Returned None"
  using Compare_Generate_roundtrip [OF returnsKeyLen_sumKDF example_Generate, of "New 4 []"]
    returnsKeyLen_sumKDF example_Generate
  by simp

text \<open>
  C2 (canonical string).  When \<open>Generate\<close> returns a string \<open>h\<close>, there are the salt, which
  is the \<open>saltLength\<close> bytes read from the random source, and the key that \<open>argon2.IDKey\<close>
  derived for the configured costs, of \<open>keyLength\<close> bytes, such that \<open>h\<close> is
  \<open>$argon2id$v=<version>$m=<memoryCost>,t=<timeCost>,p=<parallelismCost>$<salt>$<key>\<close>
  with \<open>argon2.Version\<close> and the costs in decimal; \<open>h\<close> splits at \<open>$\<close> into exactly six
  segments, the first one empty; the salt and key segments are written in the standard
  alphabet only (no padding character) and decode back to the salt and to the key.
\<close>

theorem Generate_canonical_string:
  assumes "returnsKeyLen deriveKey"
    and "Generate a src deriveKey P = Returned (h, None)"
  shows "\<exists>salt key.
           salt = take (unat (saltLength a)) (delivered src) \<and>
           length salt = unat (saltLength a) \<and>
           IDKey deriveKey P salt (timeCost a) (memoryCost a) (parallelismCost a) (keyLength a) =
             Returned key \<and>
           length key = unat (keyLength a) \<and>
           h = ''$argon2id$v='' @ formatInt argon2_Version @
               ''$m='' @ formatUint (unat (memoryCost a)) @
               '',t='' @ formatUint (unat (timeCost a)) @
               '',p='' @ formatUint (unat (parallelismCost a)) @
               ''$'' @ EncodeToString salt @ ''$'' @ EncodeToString key \<and>
           strings_Split h splitChar =
             [[], algorithm, ''v='' @ formatInt argon2_Version,
              ''m='' @ formatUint (unat (memoryCost a)) @ '',t='' @ formatUint (unat (timeCost a)) @
                '',p='' @ formatUint (unat (parallelismCost a)),
              EncodeToString salt, EncodeToString key] \<and>
           set (EncodeToString salt) \<subseteq> set encodeStd \<and>
           set (EncodeToString key) \<subseteq> set encodeStd \<and>
           DecodeString (EncodeToString salt) = Inr salt \<and>
           DecodeString (EncodeToString key) = Inr key"
proof -
  let ?salt = "take (unat (saltLength a)) (delivered src)"
  from Generate_success [OF assms(2)] obtain key where
    le: "unat (saltLength a) \<le> length (delivered src)"
    and k: "IDKey deriveKey P ?salt (timeCost a) (memoryCost a) (parallelismCost a) (keyLength a) =
          Returned key"
    and h: "h = Sprintf_template argon2_Version (memoryCost a) (timeCost a) (parallelismCost a)
          (EncodeToString ?salt) (EncodeToString key)"
    by blast
  have len: "length key = unat (keyLength a)"
    using assms(1) IDKey_Returned [OF k] by (auto simp: returnsKeyLen_def)
  have split: "strings_Split h splitChar =
      [[], algorithm, ''v='' @ formatInt argon2_Version,
       ''m='' @ formatUint (unat (memoryCost a)) @ '',t='' @ formatUint (unat (timeCost a)) @
         '',p='' @ formatUint (unat (parallelismCost a)),
       EncodeToString ?salt, EncodeToString key]"
    unfolding h using argon2_Version_bounds
    by (intro strings_Split_template EncodeToString_no_dollar) simp
  have str: "h = ''$argon2id$v='' @ formatInt argon2_Version @
               ''$m='' @ formatUint (unat (memoryCost a)) @
               '',t='' @ formatUint (unat (timeCost a)) @
               '',p='' @ formatUint (unat (parallelismCost a)) @
               ''$'' @ EncodeToString ?salt @ ''$'' @ EncodeToString key"
    unfolding h by (simp add: Sprintf_template_def)
  have alpha: "set (EncodeToString ?salt) \<subseteq> set encodeStd" "set (EncodeToString key) \<subseteq> set encodeStd"
    using EncodeToString_alphabet by blast+
  show ?thesis
    using le k len split str alpha DecodeString_EncodeToString by (intro exI [of _ ?salt] exI [of _ key]) simp
qed

theorem Generate_canonical_string_witness:
  "returnsKeyLen sumKDF \<and>
   Generate (New 4 [WithTimeCost 4, WithMemoryCost 32768, WithParallelismCost 2, WithSaltLength 4,
                    WithKeyLength 5])
     \<lparr>delivered = [1, 2, 3, 4], failure = False\<rparr> sumKDF [112, 119] =
   Returned (''$argon2id$v=19$m=32768,t=4,p=2$AQIDBA$8/Pz8/M'', None) \<and>
   strings_Split ''$argon2id$v=19$m=32768,t=4,p=2$AQIDBA$8/Pz8/M'' splitChar =
     [[], ''argon2id'', ''v=19'', ''m=32768,t=4,p=2'', ''AQIDBA'', ''8/Pz8/M''] \<and>
   DecodeString ''AQIDBA'' = Inr [1, 2, 3, 4] \<and>
   DecodeString ''8/Pz8/M'' = Inr [243, 243, 243, 243, 243]"
  using Generate_canonical_string [OF returnsKeyLen_sumKDF example_Generate]
    returnsKeyLen_sumKDF example_Generate
  by (auto simp: New_def WithTimeCost_def WithMemoryCost_def WithParallelismCost_def
      WithSaltLength_def WithKeyLength_def IDKey_def sumKDF_def argon2_Version_def formatInt_def
      formatUint_simps_numeral encodeStd_def Let_def replicate_5 algorithm_def)



text \<open>
  C4 (format rejection).  A string that does not split at \<open>$\<close> into exactly six segments
  makes \<open>Compare\<close> return an error that wraps \<open>ErrMalformedHash\<close>, and so does a string of
  six segments whose segment 1 is not \<open>argon2id\<close>.  This holds for every key derivation
  \<open>deriveKey\<close>, also one that panics whenever it is called: the key derivation is not
  reached.
\<close>

theorem Compare_rejects_malformed:
  "(length (strings_Split h splitChar) \<noteq> numParts \<longrightarrow>
      Compare a deriveKey P h = Returned (Some (Errorf ''argon2id: parts: '' ErrMalformedHash))) \<and>
   (length (strings_Split h splitChar) = numParts \<and>
    strings_Split h splitChar ! algorithmIdx \<noteq> algorithm \<longrightarrow>
      Compare a deriveKey P h = Returned (Some (Errorf ''argon2id: algorithm: '' ErrMalformedHash))) \<and>
   errors_Is (Errorf ''argon2id: parts: '' ErrMalformedHash) ErrMalformedHash \<and>
   errors_Is (Errorf ''argon2id: algorithm: '' ErrMalformedHash) ErrMalformedHash"
  by (simp add: Compare_def Let_def)

theorem Compare_rejects_malformed_witness:
  "Compare (New 4 []) (\<lambda>password salt time memory threads keyLen. Panicked ''key derivation called'')
     [112, 119] ''not-a-hash'' =
     Returned (Some (Errorf ''argon2id: parts: '' ErrMalformedHash)) \<and>
   Compare (New 4 []) (\<lambda>password salt time memory threads keyLen. Panicked ''key derivation called'')
     [112, 119] ''$argon2id$v=19$m=65536,t=2,p=1$c2FsdA$a2V5$'' =
     Returned (Some (Errorf ''argon2id: parts: '' ErrMalformedHash)) \<and>
   Compare (New 4 []) (\<lambda>password salt time memory threads keyLen. Panicked ''key derivation called'')
     [112, 119] ''$argon2i$v=19$m=65536,t=2,p=1$c2FsdA$a2V5'' =
     Returned (Some (Errorf ''argon2id: algorithm: '' ErrMalformedHash)) \<and>
   Compare (New 4 []) (\<lambda>password salt time memory threads keyLen. Panicked ''key derivation called'')
     [112, 119] ''$bcrypt$v=19$m=65536,t=2,p=1$c2FsdA$a2V5'' =
     Returned (Some (Errorf ''argon2id: algorithm: '' ErrMalformedHash))"
proof -
  let ?dk = "\<lambda>password salt time memory threads keyLen. Panicked ''key derivation called''"
  show ?thesis
    using Compare_rejects_malformed [of "''not-a-hash''" "New 4 []" ?dk "[112, 119]"]
      Compare_rejects_malformed [of "''$argon2id$v=19$m=65536,t=2,p=1$c2FsdA$a2V5$''" "New 4 []" ?dk
        "[112, 119]"]
      Compare_rejects_malformed [of "''$argon2i$v=19$m=65536,t=2,p=1$c2FsdA$a2V5''" "New 4 []" ?dk
        "[112, 119]"]
      Compare_rejects_malformed [of "''$bcrypt$v=19$m=65536,t=2,p=1$c2FsdA$a2V5''" "New 4 []" ?dk
        "[112, 119]"]
    by (simp add: splitChar_def numParts_def algorithmIdx_def algorithm_def)
qed

text \<open>
  C5 (key length of the recomputation), as amended.  On a string that passes the parsing
  steps, \<open>Compare\<close> calls \<open>argon2.IDKey\<close> with the parsed salt and costs and with the
  output length \<open>uint32(len(key))\<close>, the length of the decoded stored key reduced modulo
  \<open>2 ^ 32\<close>; no field of the receiver \<open>a\<close> occurs.  For a stored key shorter than \<open>2 ^ 32\<close>
  bytes this is the length of the key, and when the key derivation returns keys of the
  requested length, the two operands of the final comparison have equal length.
\<close>

theorem Compare_key_length_from_stored_key:
  assumes "strings_Split h splitChar = [p0, algorithm, pv, pp, ps, pk]"
    and "Sscanf_version pv = Inr v" and "Sscanf_params pp = Inr (m, t, p)"
    and "DecodeString ps = Inr salt" and "DecodeString pk = Inr key"
  shows "Compare a deriveKey P h =
           (case IDKey deriveKey P salt t m p (of_nat (length key)) of
              Panicked msg \<Rightarrow> Panicked msg
            | Returned comparisonKey \<Rightarrow>
                if ConstantTimeCompare key comparisonKey = matching then Returned None
                else Returned (Some (Errorf ''argon2id: '' ErrPasswordsDoNotMatch))) \<and>
         unat (of_nat (length key) :: uint32) = length key mod 2 ^ 32 \<and>
         (length key < 2 ^ 32 \<and> returnsKeyLen deriveKey \<longrightarrow>
            (\<forall>comparisonKey.
               IDKey deriveKey P salt t m p (of_nat (length key)) = Returned comparisonKey \<longrightarrow>
               length comparisonKey = length key))"
proof -
  have u: "unat (of_nat (length key) :: uint32) = length key mod 2 ^ 32"
    by (simp add: unat_of_nat)
  have "length comparisonKey = length key"
    if "length key < 2 ^ 32" "returnsKeyLen deriveKey"
      "IDKey deriveKey P salt t m p (of_nat (length key)) = Returned comparisonKey"
    for comparisonKey
  proof -
    have "length comparisonKey = unat (of_nat (length key) :: uint32)"
      using that(2) IDKey_Returned [OF that(3)] by (auto simp: returnsKeyLen_def)
    then show ?thesis using u that(1) by simp
  qed
  with u Compare_wellformed [OF assms] show ?thesis by blast
qed

theorem Compare_key_length_from_stored_key_witness:
  "strings_Split ''$argon2id$v=19$m=32768,t=4,p=2$AQIDBA$8/Pz8/M'' splitChar =
     [[], algorithm, ''v=19'', ''m=32768,t=4,p=2'', ''AQIDBA'', ''8/Pz8/M''] \<and>
   Sscanf_version ''v=19'' = Inr 19 \<and> Sscanf_params ''m=32768,t=4,p=2'' = Inr (32768, 4, 2) \<and>
   DecodeString ''AQIDBA'' = Inr [1, 2, 3, 4] \<and>
   DecodeString ''8/Pz8/M'' = Inr [243, 243, 243, 243, 243] \<and>
   keyLength (New 4 [WithKeyLength 64]) = 64 \<and>
   unat (of_nat (length [243, 243, 243, 243, 243 :: byte]) :: uint32) = 5 \<and>
   IDKey sumKDF [112, 119] [1, 2, 3, 4] 4 32768 2 5 = Returned [243, 243, 243, 243, 243] \<and>
   Compare (New 4 [WithKeyLength 64]) sumKDF [112, 119]
     ''$argon2id$v=19$m=32768,t=4,p=2$AQIDBA$8/Pz8/M'' = Returned None"
  using Compare_key_length_from_stored_key [OF strings_Split_example Sscanf_version_19
      Sscanf_params_example DecodeString_example_keys, of "New 4 [WithKeyLength 64]" sumKDF "[112, 119]"]
    strings_Split_example Sscanf_version_19 Sscanf_params_example DecodeString_example_keys
    IDKey_sumKDF_example
  by (simp add: New_def WithKeyLength_def ConstantTimeCompare_iff matching_def)

text \<open>
  C5, counterexample.  The claim as stated fails on a stored key of \<open>2 ^ 32 + 6\<close> bytes: the conversion to
  \<open>uint32\<close> asks the key derivation for 6 bytes, and the comparison is between 4294967302
  and 6 bytes.
\<close>

theorem stored_key_length_wraps:
  "DecodeString (replicate 5726623070 (CHR ''A'')) = Inr (replicate 4294967302 0) \<and>
   length (replicate 4294967302 (0 :: byte)) = 4294967302 \<and>
   (of_nat (length (replicate 4294967302 (0 :: byte))) :: uint32) = 6 \<and>
   IDKey sumKDF [112, 119] [] 2 65536 1 6 = Returned (replicate 6 232) \<and>
   length (replicate 6 (232 :: byte)) = 6 \<and>
   Compare (New 4 []) sumKDF [112, 119]
     (''$argon2id$v=19$m=65536,t=2,p=1$$'' @ replicate 5726623070 (CHR ''A'')) =
   Returned (Some (Errorf ''argon2id: '' ErrPasswordsDoNotMatch))"
proof -
  have l: "(of_nat (length (replicate 4294967302 (0 :: byte))) :: uint32) = 6"
    by simp
  have k: "IDKey sumKDF [112, 119] [] 2 65536 1 6 = Returned (replicate 6 232)"
    by (simp add: IDKey_def sumKDF_def)
  have ne: "replicate 4294967302 (0 :: byte) \<noteq> replicate 6 232"
    by simp
  have "Compare (New 4 []) sumKDF [112, 119]
     (''$argon2id$v=19$m=65536,t=2,p=1$$'' @ replicate 5726623070 (CHR ''A'')) =
   Returned (Some (Errorf ''argon2id: '' ErrPasswordsDoNotMatch))"
    by (simp only: Compare_wellformed [OF strings_Split_big Sscanf_version_19 Sscanf_params_t2
          DecodeString_examples(4) DecodeString_big] l k outcome.case ConstantTimeCompare_iff ne
          if_False matching_def)
       simp
  with l k DecodeString_big show ?thesis by simp
qed

text \<open>
  C6 (parameter independence).  The result of \<open>Compare\<close> is the same under any two
  receiver configurations \<open>c1\<close> and \<open>c2\<close>, for every key derivation, password and string.
\<close>

theorem Compare_ignores_receiver:
  "Compare c1 deriveKey P h = Compare c2 deriveKey P h"
  by (simp add: Compare_def)

theorem Compare_ignores_receiver_witness:
  "Compare (New 4 []) sumKDF [112, 119] ''$argon2id$v=19$m=32768,t=4,p=2$AQIDBA$8/Pz8/M'' =
   Compare (New 64 [WithTimeCost 9, WithMemoryCost 8, WithParallelismCost 0, WithSaltLength 1,
                    WithKeyLength 0])
     sumKDF [112, 119] ''$argon2id$v=19$m=32768,t=4,p=2$AQIDBA$8/Pz8/M''"
  by (rule Compare_ignores_receiver)

text \<open>
  C7 (no panic), as amended.  \<open>Compare\<close> is a total function, and it swallows no error.
  A string that does not split into six segments gives the error of the segment count.
  On a string of six segments, the first step that fails decides the result: a wrong
  tag, a version or parameters that do not scan, a salt or key that does not decode
  each give that step's error, wrapped with the step's prefix; a panic of
  \<open>argon2.IDKey\<close> is passed on; a candidate key different from the stored key gives the
  error wrapping \<open>ErrPasswordsDoNotMatch\<close>.  \<open>Compare\<close> returns \<open>nil\<close> exactly when the string
  passes every step and \<open>argon2.IDKey\<close> returns the stored key.  It panics exactly when the
  string passes every parsing step and \<open>argon2.IDKey\<close> panics on the parsed values, which
  it does whenever \<open>t = 0\<close> or \<open>p = 0\<close>.  What it returns is \<open>nil\<close> or one of seven errors.
\<close>

theorem Compare_returns_or_IDKey_panics:
  "(length (strings_Split h splitChar) \<noteq> numParts \<longrightarrow>
      Compare a deriveKey P h = Returned (Some (Errorf ''argon2id: parts: '' ErrMalformedHash))) \<and>
   (\<forall>p0 p1 pv pp ps pk.
      strings_Split h splitChar = [p0, p1, pv, pp, ps, pk] \<longrightarrow>
      (p1 \<noteq> algorithm \<longrightarrow>
         Compare a deriveKey P h =
           Returned (Some (Errorf ''argon2id: algorithm: '' ErrMalformedHash))) \<and>
      (p1 = algorithm \<longrightarrow>
         (\<forall>err. Sscanf_version pv = Inl err \<longrightarrow>
            Compare a deriveKey P h =
              Returned (Some (Errorf ''argon2id: scan version: '' err))) \<and>
         (\<forall>v. Sscanf_version pv = Inr v \<longrightarrow>
            (\<forall>err. Sscanf_params pp = Inl err \<longrightarrow>
               Compare a deriveKey P h =
                 Returned (Some (Errorf ''argon2id: scan params: '' err))) \<and>
            (\<forall>m t p. Sscanf_params pp = Inr (m, t, p) \<longrightarrow>
               (\<forall>err. DecodeString ps = Inl err \<longrightarrow>
                  Compare a deriveKey P h =
                    Returned (Some (Errorf ''argon2id: decode salt: '' err))) \<and>
               (\<forall>salt. DecodeString ps = Inr salt \<longrightarrow>
                  (\<forall>err. DecodeString pk = Inl err \<longrightarrow>
                     Compare a deriveKey P h =
                       Returned (Some (Errorf ''argon2id: decode key: '' err))) \<and>
                  (\<forall>key. DecodeString pk = Inr key \<longrightarrow>
                     (\<forall>msg. IDKey deriveKey P salt t m p (of_nat (length key)) =
                               Panicked msg \<longrightarrow>
                        Compare a deriveKey P h = Panicked msg) \<and>
                     (\<forall>comparisonKey.
                        IDKey deriveKey P salt t m p (of_nat (length key)) =
                          Returned comparisonKey \<longrightarrow>
                        Compare a deriveKey P h =
                          (if comparisonKey = key then Returned None
                           else Returned (Some (Errorf ''argon2id: ''
                                                  ErrPasswordsDoNotMatch)))) \<and>
                     (t = 0 \<or> p = 0 \<longrightarrow>
                        Compare a deriveKey P h =
                          Panicked (if t = 0 then ''argon2: number of rounds too small''
                                    else ''argon2: parallelism degree too low'')))))))) \<and>
   (Compare a deriveKey P h = Returned None \<longleftrightarrow>
      (\<exists>p0 pv pp ps pk v m t p salt key.
         strings_Split h splitChar = [p0, algorithm, pv, pp, ps, pk] \<and>
         Sscanf_version pv = Inr v \<and> Sscanf_params pp = Inr (m, t, p) \<and>
         DecodeString ps = Inr salt \<and> DecodeString pk = Inr key \<and>
         IDKey deriveKey P salt t m p (of_nat (length key)) = Returned key)) \<and>
   (\<forall>msg. Compare a deriveKey P h = Panicked msg \<longleftrightarrow>
      (\<exists>p0 pv pp ps pk v m t p salt key.
         strings_Split h splitChar = [p0, algorithm, pv, pp, ps, pk] \<and>
         Sscanf_version pv = Inr v \<and> Sscanf_params pp = Inr (m, t, p) \<and>
         DecodeString ps = Inr salt \<and> DecodeString pk = Inr key \<and>
         IDKey deriveKey P salt t m p (of_nat (length key)) = Panicked msg)) \<and>
   (\<forall>r. Compare a deriveKey P h = Returned r \<longrightarrow>
      r = None \<or>
      r \<in> Some ` {Errorf ''argon2id: parts: '' ErrMalformedHash,
                  Errorf ''argon2id: algorithm: '' ErrMalformedHash,
                  Errorf ''argon2id: scan version: '' ScanError,
                  Errorf ''argon2id: scan params: '' ScanError,
                  Errorf ''argon2id: decode salt: '' CorruptInputError,
                  Errorf ''argon2id: decode key: '' CorruptInputError,
                  Errorf ''argon2id: '' ErrPasswordsDoNotMatch})"
proof (intro conjI)
  show "length (strings_Split h splitChar) \<noteq> numParts \<longrightarrow>
      Compare a deriveKey P h = Returned (Some (Errorf ''argon2id: parts: '' ErrMalformedHash))"
    by (simp add: Compare_def Let_def)
next
  show "Compare a deriveKey P h = Returned None \<longleftrightarrow>
      (\<exists>p0 pv pp ps pk v m t p salt key.
         strings_Split h splitChar = [p0, algorithm, pv, pp, ps, pk] \<and>
         Sscanf_version pv = Inr v \<and> Sscanf_params pp = Inr (m, t, p) \<and>
         DecodeString ps = Inr salt \<and> DecodeString pk = Inr key \<and>
         IDKey deriveKey P salt t m p (of_nat (length key)) = Returned key)"
    by (rule Compare_nil_iff)
next
  show "\<forall>msg. Compare a deriveKey P h = Panicked msg \<longleftrightarrow>
      (\<exists>p0 pv pp ps pk v m t p salt key.
         strings_Split h splitChar = [p0, algorithm, pv, pp, ps, pk] \<and>
         Sscanf_version pv = Inr v \<and> Sscanf_params pp = Inr (m, t, p) \<and>
         DecodeString ps = Inr salt \<and> DecodeString pk = Inr key \<and>
         IDKey deriveKey P salt t m p (of_nat (length key)) = Panicked msg)"
    using Compare_panic_iff by blast
next
  show "\<forall>r. Compare a deriveKey P h = Returned r \<longrightarrow>
      r = None \<or>
      r \<in> Some ` {Errorf ''argon2id: parts: '' ErrMalformedHash,
                  Errorf ''argon2id: algorithm: '' ErrMalformedHash,
                  Errorf ''argon2id: scan version: '' ScanError,
                  Errorf ''argon2id: scan params: '' ScanError,
                  Errorf ''argon2id: decode salt: '' CorruptInputError,
                  Errorf ''argon2id: decode key: '' CorruptInputError,
                  Errorf ''argon2id: '' ErrPasswordsDoNotMatch}"
    using Compare_returned_values by blast
qed (intro allI impI, rule Compare_step_errors, assumption)

theorem Compare_returns_or_IDKey_panics_witness:
  "Compare (New 4 []) sumKDF [112, 119] ''not-a-hash'' =
     Returned (Some (Errorf ''argon2id: parts: '' ErrMalformedHash)) \<and>
   Compare (New 4 []) sumKDF [112, 119] ''$argon2id$vers$m=65536,t=2,p=1$c2FsdA$a2V5'' =
     Returned (Some (Errorf ''argon2id: scan version: '' ScanError)) \<and>
   Compare (New 4 []) sumKDF [112, 119] ''$argon2id$v=19$m=65536,t=0,p=1$c2FsdA$a2V5'' =
     Panicked ''argon2: number of rounds too small''"
proof -
  have n: "length (strings_Split ''not-a-hash'' splitChar) \<noteq> numParts"
    by (simp add: splitChar_def numParts_def)
  have 1: "Compare (New 4 []) sumKDF [112, 119] ''not-a-hash'' =
     Returned (Some (Errorf ''argon2id: parts: '' ErrMalformedHash))"
    using Compare_returns_or_IDKey_panics [of "''not-a-hash''" "New 4 []" sumKDF "[112, 119]",
        THEN conjunct1] n
    by blast
  have 2: "Compare (New 4 []) sumKDF [112, 119] ''$argon2id$vers$m=65536,t=2,p=1$c2FsdA$a2V5'' =
     Returned (Some (Errorf ''argon2id: scan version: '' ScanError))"
    using Compare_returns_or_IDKey_panics
        [of "''$argon2id$vers$m=65536,t=2,p=1$c2FsdA$a2V5''" "New 4 []" sumKDF "[112, 119]",
         THEN conjunct2, THEN conjunct1, rule_format, OF strings_Split_vers,
         THEN conjunct2, rule_format, OF refl, THEN conjunct1, rule_format,
         OF Sscanf_version_vers] .
  have 3: "Compare (New 4 []) sumKDF [112, 119] ''$argon2id$v=19$m=65536,t=0,p=1$c2FsdA$a2V5'' =
     Panicked ''argon2: number of rounds too small''"
    using Compare_returns_or_IDKey_panics
        [of "''$argon2id$v=19$m=65536,t=0,p=1$c2FsdA$a2V5''" "New 4 []" sumKDF "[112, 119]",
         THEN conjunct2, THEN conjunct1, rule_format, OF strings_Split_t0,
         THEN conjunct2, rule_format, OF refl, THEN conjunct2, rule_format,
         OF Sscanf_version_19, THEN conjunct2, rule_format, OF Sscanf_params_t0,
         THEN conjunct2, rule_format, OF DecodeString_examples(1),
         THEN conjunct2, rule_format, OF DecodeString_examples(2),
         THEN conjunct2, THEN conjunct2]
    by simp
  from 1 2 3 show ?thesis by simp
qed

text \<open>
  C7, counterexample.  The claim as stated fails: a well-formed string with \<open>t=0\<close> makes \<open>Compare\<close> panic.
\<close>

theorem Compare_panics_counterexample:
  "Compare (New 4 []) sumKDF [112, 119] ''$argon2id$v=19$m=65536,t=0,p=1$c2FsdA$a2V5'' =
   Panicked ''argon2: number of rounds too small''"
  by (simp add: Compare_wellformed [OF strings_Split_t0 Sscanf_version_19 Sscanf_params_t0
        DecodeString_examples(1) DecodeString_examples(2)] IDKey_def)

text \<open>
  C9 (construction) at a host with 256 CPUs.  \<open>New()\<close> without options stores
  \<open>uint8(256) = 0\<close> as \<open>parallelismCost\<close>, not the number of CPUs, and \<open>Generate\<close> under
  this configuration panics in \<open>argon2.IDKey\<close>.  (The lemmas \<open>New_options_in_order\<close> and
  \<open>defaultParallelismCost_mod\<close> give every field after any list of options: the last
  option given for the field, or the default, which for \<open>parallelismCost\<close> is the number
  of CPUs modulo 256.)
\<close>

theorem New_with_256_CPUs:
  "parallelismCost (New 256 []) = 0 \<and>
   Generate (New 256 [])
     \<lparr>delivered = [1, 2, 3, 4, 5, 6, 7, 8, 9, 10, 11, 12, 13, 14, 15, 16], failure = False\<rparr>
     sumKDF [112, 119] =
   Panicked ''argon2: parallelism degree too low''"
  by (simp add: New_def defaultParallelismCost_def defaultTimeCost_def defaultMemoryCost_def
      defaultSaltLength_def defaultKeyLength_def Generate_def rand_Read_def IDKey_def Let_def)

text \<open>
  C10 (version unused).  Let \<open>h\<close> be a string of six segments whose version segment \<open>pv\<close>
  scans.  Replacing \<open>pv\<close> by any other segment \<open>pv'\<close> that scans (and contains no \<open>$\<close>),
  such as \<open>v=0\<close> for \<open>v=19\<close>, leaves the result of \<open>Compare\<close> unchanged, for every
  password: the parsed version is not used.
\<close>

theorem Compare_version_unused:
  assumes "strings_Split h splitChar = [p0, p1, pv, pp, ps, pk]"
    and "Sscanf_version pv = Inr v" and "Sscanf_version pv' = Inr v'"
    and "splitChar \<notin> set pv'"
  shows "strings_Join [p0, p1, pv, pp, ps, pk] splitChar = h \<and>
         Compare a deriveKey P (strings_Join [p0, p1, pv', pp, ps, pk] splitChar) =
         Compare a deriveKey P h"
proof -
  have j: "strings_Join [p0, p1, pv, pp, ps, pk] splitChar = h"
    using strings_Join_Split [of h splitChar] assms(1) by simp
  have "\<forall>q \<in> set [p0, p1, pv, pp, ps, pk]. splitChar \<notin> set q"
    using strings_Split_parts_no_sep [of _ h splitChar] assms(1) by auto
  then have "\<forall>q \<in> set [p0, p1, pv', pp, ps, pk]. splitChar \<notin> set q"
    using assms(4) by simp
  then have s: "strings_Split (strings_Join [p0, p1, pv', pp, ps, pk] splitChar) splitChar =
             [p0, p1, pv', pp, ps, pk]"
    by (intro strings_Split_Join) simp_all
  show ?thesis
    by (simp only: j Compare_six_parts [OF s] Compare_six_parts [OF assms(1)] assms(2,3) sum.case)
qed

theorem Compare_version_unused_witness:
  "Sscanf_version ''v=19'' = Inr 19 \<and> Sscanf_version ''v=0'' = Inr 0 \<and>
   Compare (New 4 []) sumKDF [112, 119] ''$argon2id$v=0$m=32768,t=4,p=2$AQIDBA$8/Pz8/M'' =
   Compare (New 4 []) sumKDF [112, 119] ''$argon2id$v=19$m=32768,t=4,p=2$AQIDBA$8/Pz8/M''"
  using Compare_version_unused [OF strings_Split_example Sscanf_version_19 Sscanf_version_0,
      of "New 4 []" sumKDF "[112, 119]"]
    Sscanf_version_19 Sscanf_version_0
  by (simp add: splitChar_def algorithm_def)

end
